theory Spec2Isabelle
  imports Main
begin

section \<open>Presence and position server: a shallow embedding of server.js\<close>

text \<open>
  The server keeps three pieces of shared state: the object \<open>users\<close> (the registry,
  written to users.json on every change), the Set \<open>connectedUsers\<close> and the array
  \<open>sseClients\<close>. Every callback of the source (WebSocket message, WebSocket close, the
  two HTTP routes, the close of an event stream) runs to completion on the event loop, so
  each one is a function from the state to the new state and the list of effects it
  performed, in program order.

  Text is modelled by Isabelle strings; a \<open>char\<close> stands for one code unit, so the model
  covers text whose code units are below 256. A value that is either \<open>undefined\<close> or a
  string is a \<open>string option\<close>, with \<open>None\<close> for \<open>undefined\<close>.

  The file system and the sockets are taken to accept every write: \<open>fs.writeFileSync\<close>,
  \<open>res.write\<close> and \<open>ws.send\<close> return normally, and what they were given is recorded
  as an effect. The time of a HELLO, \<open>new Date().toISOString()\<close>, comes with the event.
\<close>

type_synonym jsval = "string option"

subsection \<open>String.prototype.split and array indexing\<close>

text \<open>\<open>msg.toString().split("|")\<close>: always at least one part.\<close>

fun split_pipe :: "string \<Rightarrow> string list" where
  "split_pipe [] = [[]]"
| "split_pipe (c # cs) =
     (if c = CHR ''|'' then [] # split_pipe cs
      else (case split_pipe cs of
              [] \<Rightarrow> [[c]]
            | p # ps \<Rightarrow> (c # p) # ps))"

text \<open>\<open>parts[i]\<close>: reading past the end of an array yields \<open>undefined\<close>.\<close>

definition part :: "string list \<Rightarrow> nat \<Rightarrow> jsval" where
  "part parts i = (if i < length parts then Some (parts ! i) else None)"

text \<open>\<open>v || d\<close> for such a value: \<open>undefined\<close> and the empty string are falsy.\<close>

definition or_default :: "jsval \<Rightarrow> string \<Rightarrow> string" where
  "or_default v d = (case v of None \<Rightarrow> d | Some t \<Rightarrow> if t = [] then d else t)"

subsection \<open>Numbers: parseFloat and Number.prototype.toFixed(2)\<close>

text \<open>
  A double is \<open>NaN\<close>, an infinity (the flag is the sign, \<open>True\<close> for negative) or the
  finite value \<open>m * 2 ^ e\<close> kept as the pair of integers \<open>Finite m e\<close>. The two zeros are
  not told apart: \<open>toFixed\<close> prints both as \<open>0.00\<close>. \<open>parseFloat\<close> reads the longest
  prefix that is a decimal literal and rounds its exact value to the nearest double, ties
  to even, as V8 does.
\<close>

datatype jsnum = NaN | Infinity bool | Finite int int

datatype literal = NoLiteral | InfLiteral | Dec int int

definition is_digit :: "char \<Rightarrow> bool" where
  "is_digit c = (c \<in> set ''0123456789'')"

definition digit_val :: "char \<Rightarrow> int" where
  "digit_val c = of_char c - 48"

definition digits_val :: "string \<Rightarrow> int" where
  "digits_val ds = foldl (\<lambda>a c. 10 * a + digit_val c) 0 ds"

function decimal :: "int \<Rightarrow> string" where
  "decimal n =
     (if n < 10 then [char_of (48 + n)]
      else decimal (n div 10) @ [char_of (48 + n mod 10)])"
  by pat_completeness auto
termination
  by (relation "measure nat") auto

declare decimal.simps [simp del]

function bits :: "int \<Rightarrow> int" where
  "bits n = (if n \<le> 0 then 0 else 1 + bits (n div 2))"
  by pat_completeness auto
termination
  by (relation "measure nat") auto

declare bits.simps [simp del]

text \<open>The optional exponent of a literal; \<open>1e\<close> and \<open>1e+\<close> have none.\<close>

definition exponent_part :: "string \<Rightarrow> int" where
  "exponent_part s =
     (case s of
        [] \<Rightarrow> 0
      | c # r \<Rightarrow>
          if c = CHR ''e'' \<or> c = CHR ''E'' then
            (let sg = (case r of [] \<Rightarrow> 1 | d # _ \<Rightarrow> if d = CHR ''-'' then - 1 else (1::int));
                 r' = (case r of
                         [] \<Rightarrow> []
                       | d # t \<Rightarrow> if d = CHR ''-'' \<or> d = CHR ''+'' then t else r);
                 ds = takeWhile is_digit r'
             in if ds = [] then 0 else sg * digits_val ds)
          else 0)"

text \<open>
  The unsigned literal at the head of a string: \<open>Infinity\<close>, digits with an optional
  fraction, or a fraction alone. \<open>Dec M E\<close> is the exact value \<open>M * 10 ^ E\<close>.
\<close>

definition str_unsigned :: "string \<Rightarrow> literal" where
  "str_unsigned s =
     (if take 8 s = ''Infinity'' then InfLiteral
      else
        let ip = takeWhile is_digit s; r1 = dropWhile is_digit s
        in case r1 of
             [] \<Rightarrow> if ip = [] then NoLiteral else Dec (digits_val ip) 0
           | c # r2 \<Rightarrow>
               if c = CHR ''.'' then
                 (let fp = takeWhile is_digit r2; r3 = dropWhile is_digit r2
                  in if ip = [] \<and> fp = [] then NoLiteral
                     else Dec (digits_val (ip @ fp)) (exponent_part r3 - int (length fp)))
               else if ip = [] then NoLiteral
               else Dec (digits_val ip) (exponent_part r1))"

text \<open>The binary exponent of the positive ratio \<open>p / q\<close>.\<close>

definition floor_log2 :: "int \<Rightarrow> int \<Rightarrow> int" where
  "floor_log2 p q =
     (let e0 = bits p - bits q
      in if 0 \<le> e0 then (if q * 2 ^ nat e0 \<le> p then e0 else e0 - 1)
         else (if q \<le> p * 2 ^ nat (- e0) then e0 else e0 - 1))"

text \<open>
  The double nearest to \<open>p / q\<close>: 53 significant bits for a normal number, the fixed
  exponent \<open>-1074\<close> below \<open>2 ^ -1022\<close>, infinity from \<open>2 ^ 1024\<close> on.
\<close>

definition round_ratio :: "int \<Rightarrow> int \<Rightarrow> jsnum" where
  "round_ratio p q =
     (let e = floor_log2 p q in
      if 1023 < e then Infinity False
      else
        let e' = max e (- 1022);
            sh = 52 - e';
            N = (if 0 \<le> sh then p * 2 ^ nat sh else p);
            D = (if 0 \<le> sh then q else q * 2 ^ nat (- sh));
            n0 = N div D;
            r = N mod D;
            n = (if D < 2 * r \<or> (2 * r = D \<and> odd n0) then n0 + 1 else n0)
        in if n = 0 then Finite 0 0
           else if n = 2 ^ 53
             then (if e' = 1023 then Infinity False else Finite (2 ^ 52) (e' - 51))
           else Finite n (e' - 52))"

definition to_double :: "int \<Rightarrow> int \<Rightarrow> jsnum" where
  "to_double M E =
     (if M = 0 then Finite 0 0
      else if 0 \<le> E then round_ratio (M * 10 ^ nat E) 1
      else round_ratio M (10 ^ nat (- E)))"

definition negate :: "jsnum \<Rightarrow> jsnum" where
  "negate v =
     (case v of NaN \<Rightarrow> NaN | Infinity b \<Rightarrow> Infinity (\<not> b) | Finite m e \<Rightarrow> Finite (- m) e)"

definition literal_value :: "literal \<Rightarrow> jsnum" where
  "literal_value l =
     (case l of NoLiteral \<Rightarrow> NaN | InfLiteral \<Rightarrow> Infinity False | Dec M E \<Rightarrow> to_double M E)"

definition is_white :: "char \<Rightarrow> bool" where
  "is_white c = (of_char c \<in> set [9, 10, 11, 12, 13, 32, 160 :: nat])"

text \<open>\<open>parseFloat(v)\<close>; \<open>undefined\<close> is first turned into the string \<open>undefined\<close>.\<close>

definition parseFloat :: "jsval \<Rightarrow> jsnum" where
  "parseFloat v =
     (let t = dropWhile is_white (case v of None \<Rightarrow> ''undefined'' | Some s \<Rightarrow> s)
      in case t of
           [] \<Rightarrow> NaN
         | c # r \<Rightarrow>
             if c = CHR ''-'' then negate (literal_value (str_unsigned r))
             else if c = CHR ''+'' then literal_value (str_unsigned r)
             else literal_value (str_unsigned t))"

text \<open>Whether \<open>a * 2 ^ x\<close> has reached \<open>10 ^ 21\<close>, where \<open>toFixed\<close> changes notation.\<close>

definition ge_1e21 :: "int \<Rightarrow> int \<Rightarrow> bool" where
  "ge_1e21 a x =
     (if 0 \<le> x then 10 ^ 21 \<le> a * 2 ^ nat x else 10 ^ 21 * 2 ^ nat (- x) \<le> a)"

text \<open>
  Number-to-string for a double \<open>a * 2 ^ x\<close> from \<open>10 ^ 21\<close> on: the fewest significant
  digits that read back as the same double (the nearer candidate when two do), in
  exponent notation.
\<close>

definition shortest_candidate :: "int \<Rightarrow> int \<Rightarrow> int \<Rightarrow> nat \<Rightarrow> nat \<Rightarrow> int option" where
  "shortest_candidate a x X nd k =
     (let u = 10 ^ (nd - k);
          s0 = X div u;
          r = X mod u;
          ok0 = (to_double (s0 * u) 0 = Finite a x);
          ok1 = (to_double ((s0 + 1) * u) 0 = Finite a x)
      in if ok0 \<and> ok1 then
           (if 2 * r < u then Some (s0 * u)
            else if u < 2 * r then Some ((s0 + 1) * u)
            else if even s0 then Some (s0 * u) else Some ((s0 + 1) * u))
         else if ok0 then Some (s0 * u)
         else if ok1 then Some ((s0 + 1) * u)
         else None)"

fun first_candidate :: "(nat \<Rightarrow> int option) \<Rightarrow> nat list \<Rightarrow> int option" where
  "first_candidate f [] = None"
| "first_candidate f (k # ks) =
     (case f k of Some v \<Rightarrow> Some v | None \<Rightarrow> first_candidate f ks)"

definition strip_zeros :: "string \<Rightarrow> string" where
  "strip_zeros ds = rev (dropWhile (\<lambda>c. c = CHR ''0'') (rev ds))"

definition exponential :: "int \<Rightarrow> int \<Rightarrow> string" where
  "exponential a x =
     (let X = a * 2 ^ nat x;
          nd = length (decimal X);
          V = (case first_candidate (shortest_candidate a x X nd) [1 ..< Suc nd] of
                 Some v \<Rightarrow> v
               | None \<Rightarrow> X);
          ds = decimal V;
          sig = strip_zeros ds;
          ex = ''e+'' @ decimal (int (length ds) - 1)
      in case sig of
           [] \<Rightarrow> ''0''
         | d # rest \<Rightarrow> if rest = [] then d # ex else d # CHR ''.'' # rest @ ex)"

text \<open>
  The integer \<open>n\<close> nearest to \<open>100 * a * 2 ^ x\<close>, the larger one on a tie, as
  \<open>toFixed\<close> chooses it.
\<close>

definition hundredths :: "int \<Rightarrow> int \<Rightarrow> int" where
  "hundredths a x =
     (if 0 \<le> x then a * 2 ^ nat x * 100
      else (a * 200 + 2 ^ nat (- x)) div (2 * 2 ^ nat (- x)))"

text \<open>The digits of \<open>n\<close>, padded to three, with the point before the last two.\<close>

definition point2 :: "int \<Rightarrow> string" where
  "point2 n =
     (let ds = decimal n;
          p = replicate (3 - length ds) CHR ''0'' @ ds
      in take (length p - 2) p @ ''.'' @ drop (length p - 2) p)"

definition toFixed2 :: "jsnum \<Rightarrow> string" where
  "toFixed2 v =
     (case v of
        NaN \<Rightarrow> ''NaN''
      | Infinity neg \<Rightarrow> (if neg then ''-Infinity'' else ''Infinity'')
      | Finite m x \<Rightarrow>
          (let s = (if m < 0 then ''-'' else '''');
               a = \<bar>m\<bar>
           in if ge_1e21 a x then s @ exponential a x
              else s @ point2 (hundredths a x)))"

subsection \<open>The registry object\<close>

text \<open>
  A record of \<open>users\<close> is an object with the seven properties the HELLO branch writes,
  each \<open>undefined\<close> or a string; a registry read from users.json is taken to hold
  records of that shape. \<open>users\<close> itself is the list of its own properties in the order
  \<open>Object.values\<close> and \<open>JSON.stringify\<close> enumerate them: keys that are array indices
  first, ascending, then the other keys in the order they were created.
\<close>

record user =
  steamId :: jsval
  username :: jsval
  region :: jsval
  timezone :: jsval
  firstConnected :: jsval
  lastConnected :: jsval
  lastPosition :: jsval

type_synonym registry = "(string \<times> user) list"

definition is_array_index :: "string \<Rightarrow> bool" where
  "is_array_index k =
     (case k of
        [] \<Rightarrow> False
      | c # cs \<Rightarrow>
          list_all is_digit k \<and> (c \<noteq> CHR ''0'' \<or> cs = []) \<and> digits_val k \<le> 4294967294)"

fun insert_index :: "string \<Rightarrow> user \<Rightarrow> registry \<Rightarrow> registry" where
  "insert_index k u [] = [(k, u)]"
| "insert_index k u ((k', u') # rest) =
     (if is_array_index k' \<and> digits_val k' < digits_val k
      then (k', u') # insert_index k u rest
      else (k, u) # (k', u') # rest)"

text \<open>\<open>users[k] = u\<close>: an existing own property keeps its place.\<close>

definition own_set :: "string \<Rightarrow> user \<Rightarrow> registry \<Rightarrow> registry" where
  "own_set k u reg =
     (if k \<in> set (map fst reg)
      then map (\<lambda>(k', u'). if k' = k then (k', u) else (k', u')) reg
      else if is_array_index k then insert_index k u reg
      else reg @ [(k, u)])"

text \<open>The property key of \<open>users[steamId]\<close>.\<close>

definition property_key :: "jsval \<Rightarrow> string" where
  "property_key v = (case v of None \<Rightarrow> ''undefined'' | Some t \<Rightarrow> t)"

text \<open>
  \<open>users\<close> is an ordinary object, so reading \<open>users[k]\<close> for a key that is not an own
  property goes on to \<open>Object.prototype\<close>: its built-in members, and whatever the server
  itself has stored there by writing through \<open>users["__proto__"]\<close>.
\<close>

definition builtin_names :: "string list" where
  "builtin_names =
     [''constructor'', ''__defineGetter__'', ''__defineSetter__'', ''hasOwnProperty'',
      ''__lookupGetter__'', ''__lookupSetter__'', ''isPrototypeOf'',
      ''propertyIsEnumerable'', ''toString'', ''valueOf'', ''toLocaleString'',
      ''__proto__'']"

datatype jsref =
    RUndefined
  | RRecord user
  | RObjectPrototype
  | RBuiltin string
  | RString string

datatype field = F_username | F_region | F_timezone | F_lastConnected | F_lastPosition

fun field_name :: "field \<Rightarrow> string" where
  "field_name F_username = ''username''"
| "field_name F_region = ''region''"
| "field_name F_timezone = ''timezone''"
| "field_name F_lastConnected = ''lastConnected''"
| "field_name F_lastPosition = ''lastPosition''"

fun set_field :: "field \<Rightarrow> jsval \<Rightarrow> user \<Rightarrow> user" where
  "set_field F_username v u = u\<lparr>username := v\<rparr>"
| "set_field F_region v u = u\<lparr>region := v\<rparr>"
| "set_field F_timezone v u = u\<lparr>timezone := v\<rparr>"
| "set_field F_lastConnected v u = u\<lparr>lastConnected := v\<rparr>"
| "set_field F_lastPosition v u = u\<lparr>lastPosition := v\<rparr>"

subsection \<open>The Set connectedUsers\<close>

definition set_add :: "'a \<Rightarrow> 'a list \<Rightarrow> 'a list" where
  "set_add x xs = (if x \<in> set xs then xs else xs @ [x])"

definition set_delete :: "'a \<Rightarrow> 'a list \<Rightarrow> 'a list" where
  "set_delete x xs = filter (\<lambda>y. y \<noteq> x) xs"

definition set_has :: "'a list \<Rightarrow> 'a \<Rightarrow> bool" where
  "set_has xs x = (x \<in> set xs)"

subsection \<open>Server state and effects\<close>

type_synonym conn = nat
type_synonym feed = nat

record server =
  users :: registry
  connectedUsers :: "jsval list"
  sseClients :: "feed list"
  object_prototype :: "(string \<times> jsval) list"

record entry =
  row_username :: string
  row_steamId :: string
  row_joined :: string
  row_connected :: bool
  row_lastPosition :: string

text \<open>
  What a callback does to the outside: a line on the console, \<open>saveUsers\<close> writing the
  registry to users.json, \<open>res.write\<close> of a snapshot to an event stream, \<open>ws.send\<close> of
  \<open>WELCOME|\<close> followed by \<open>JSON.stringify\<close> of the value that \<open>users[steamId]\<close> then
  yields, and the page of \<open>GET /\<close> with the snapshot it embeds. The values are kept as
  they are handed to \<open>JSON.stringify\<close>.
\<close>

datatype log_line =
    ClientConnected
  | NewUser jsval jsval
  | ReturningUser jsval jsval
  | UnknownCommand string
  | ClientDisconnected
  | ParseFailed

datatype effect =
    ConsoleLog log_line
  | WriteUsersFile registry
  | SseWrite feed "entry list"
  | WsSend conn jsref
  | HttpPage "entry list"

definition js_get :: "server \<Rightarrow> string \<Rightarrow> jsref" where
  "js_get s k =
     (case map_of (users s) k of
        Some u \<Rightarrow> RRecord u
      | None \<Rightarrow>
          if k = ''__proto__'' then RObjectPrototype
          else if k \<in> set builtin_names then RBuiltin k
          else (case map_of (object_prototype s) k of
                  Some (Some t) \<Rightarrow> RString t
                | _ \<Rightarrow> RUndefined))"

definition truthy :: "jsref \<Rightarrow> bool" where
  "truthy r = (case r of RUndefined \<Rightarrow> False | RString t \<Rightarrow> t \<noteq> [] | _ \<Rightarrow> True)"

text \<open>
  \<open>users[k].f = v\<close>, for a truthy \<open>users[k]\<close>: a record is updated in place; through
  \<open>__proto__\<close> the property lands on \<open>Object.prototype\<close>; on a built-in function it is
  stored on that function, where nothing reads it again; on a string it is dropped
  (the file runs in sloppy mode).
\<close>

definition assign :: "string \<Rightarrow> field \<Rightarrow> jsval \<Rightarrow> server \<Rightarrow> server" where
  "assign k f v s =
     (case js_get s k of
        RRecord u \<Rightarrow> s\<lparr>users := own_set k (set_field f v u) (users s)\<rparr>
      | RObjectPrototype \<Rightarrow>
          s\<lparr>object_prototype :=
               (field_name f, v) # filter (\<lambda>(n, _). n \<noteq> field_name f) (object_prototype s)\<rparr>
      | _ \<Rightarrow> s)"

subsection \<open>formatUsers, saveUsers, broadcastUsers\<close>

text \<open>
  \<open>L\<close> stands for \<open>t \<mapsto> new Date(t).toLocaleString()\<close>, which depends on the
  locale and time zone of the host.
\<close>

definition formatUsers :: "(string \<Rightarrow> string) \<Rightarrow> server \<Rightarrow> entry list" where
  "formatUsers L s =
     map (\<lambda>(k, u).
            \<lparr>row_username = or_default (username u) ''(unknown)'',
             row_steamId = or_default (steamId u) ''N/A'',
             row_joined = (case firstConnected u of
                             None \<Rightarrow> ''N/A''
                           | Some t \<Rightarrow> if t = [] then ''N/A'' else L t),
             row_connected = set_has (connectedUsers s) (steamId u),
             row_lastPosition = or_default (lastPosition u) ''N/A''\<rparr>)
         (users s)"

definition saveUsers :: "server \<Rightarrow> effect list" where
  "saveUsers s = [WriteUsersFile (users s)]"

definition broadcastUsers :: "(string \<Rightarrow> string) \<Rightarrow> server \<Rightarrow> effect list" where
  "broadcastUsers L s = map (\<lambda>res. SseWrite res (formatUsers L s)) (sseClients s)"

subsection \<open>The WebSocket callbacks\<close>

definition hello ::
  "(string \<Rightarrow> string) \<Rightarrow> server \<Rightarrow> conn \<Rightarrow> jsval \<Rightarrow> jsval \<Rightarrow> jsval \<Rightarrow> jsval \<Rightarrow> string
     \<Rightarrow> server \<times> effect list" where
  "hello L s ws sid name reg tz now =
     (let k = property_key sid;
          fresh = \<not> truthy (js_get s k);
          s1 = (if fresh
                then s\<lparr>users :=
                        own_set k
                          \<lparr>steamId = sid, username = name, region = reg, timezone = tz,
                           firstConnected = Some now, lastConnected = Some now,
                           lastPosition = Some ''N/A''\<rparr>
                          (users s)\<rparr>
                else assign k F_lastConnected (Some now)
                       (assign k F_timezone tz
                          (assign k F_region reg
                             (assign k F_username name s))));
          line = (if fresh then NewUser name sid else ReturningUser name sid);
          s2 = s1\<lparr>connectedUsers := set_add sid (connectedUsers s1)\<rparr>
      in (s2, [ConsoleLog line] @ saveUsers s2 @ broadcastUsers L s2 @ [WsSend ws (js_get s2 k)]))"

definition position ::
  "(string \<Rightarrow> string) \<Rightarrow> server \<Rightarrow> jsval \<Rightarrow> jsnum \<Rightarrow> jsnum \<Rightarrow> jsnum \<Rightarrow> server \<times> effect list" where
  "position L s sid x y z =
     (let k = property_key sid
      in if truthy (js_get s k)
         then (let s1 = assign k F_lastPosition
                          (Some (toFixed2 x @ '', '' @ toFixed2 y @ '', '' @ toFixed2 z)) s
               in (s1, saveUsers s1 @ broadcastUsers L s1))
         else (s, []))"

text \<open>\<open>ws.on("message")\<close>; \<open>now\<close> is \<open>new Date().toISOString()\<close> at that moment.\<close>

definition on_message ::
  "(string \<Rightarrow> string) \<Rightarrow> server \<Rightarrow> conn \<Rightarrow> string \<Rightarrow> string \<Rightarrow> server \<times> effect list" where
  "on_message L s ws msg now =
     (let parts = split_pipe msg;
          command = part parts 0
      in if command = Some ''HELLO''
         then hello L s ws (part parts 1) (part parts 2) (part parts 3) (part parts 4) now
         else if command = Some ''POSITION''
         then position L s (part parts 1) (parseFloat (part parts 2))
                (parseFloat (part parts 3)) (parseFloat (part parts 4))
         else (s, [ConsoleLog (UnknownCommand msg)]))"

text \<open>
  \<open>ws.on("close")\<close>: \<open>forEach\<close> visits every member of the Set and the callback deletes
  the member it is given.
\<close>

definition on_close :: "(string \<Rightarrow> string) \<Rightarrow> server \<Rightarrow> server \<times> effect list" where
  "on_close L s =
     (let s1 = s\<lparr>connectedUsers := fold set_delete (connectedUsers s) (connectedUsers s)\<rparr>
      in (s1, [ConsoleLog ClientDisconnected] @ broadcastUsers L s1))"

subsection \<open>The HTTP routes\<close>

text \<open>\<open>GET /events\<close>: the response is pushed on \<open>sseClients\<close> and written to once.\<close>

definition events_open :: "(string \<Rightarrow> string) \<Rightarrow> server \<Rightarrow> feed \<Rightarrow> server \<times> effect list" where
  "events_open L s res =
     (let s1 = s\<lparr>sseClients := sseClients s @ [res]\<rparr>
      in (s1, [SseWrite res (formatUsers L s1)]))"

definition events_close :: "server \<Rightarrow> feed \<Rightarrow> server" where
  "events_close s res = s\<lparr>sseClients := filter (\<lambda>c. c \<noteq> res) (sseClients s)\<rparr>"

definition get_root :: "(string \<Rightarrow> string) \<Rightarrow> server \<Rightarrow> effect list" where
  "get_root L s = [HttpPage (formatUsers L s)]"

subsection \<open>Start-up and runs\<close>

text \<open>
  The file is absent (\<open>None\<close>) or has a content; \<open>parse\<close> stands for \<open>JSON.parse\<close>
  restricted to registries, with \<open>None\<close> where it throws.
\<close>

definition load :: "(string \<Rightarrow> registry option) \<Rightarrow> string option \<Rightarrow> registry \<times> effect list" where
  "load parse file =
     (case file of
        None \<Rightarrow> ([], [])
      | Some text \<Rightarrow>
          (case parse text of
             Some reg \<Rightarrow> (reg, [])
           | None \<Rightarrow> ([], [ConsoleLog ParseFailed])))"

definition startup :: "(string \<Rightarrow> registry option) \<Rightarrow> string option \<Rightarrow> server \<times> effect list" where
  "startup parse file =
     (\<lparr>users = fst (load parse file), connectedUsers = [], sseClients = [],
       object_prototype = []\<rparr>,
      snd (load parse file))"

datatype event =
    Connection conn
  | Message conn string string
  | Close conn
  | EventsOpen feed
  | EventsClose feed
  | GetRoot

fun step :: "(string \<Rightarrow> string) \<Rightarrow> server \<Rightarrow> event \<Rightarrow> server \<times> effect list" where
  "step L s (Connection ws) = (s, [ConsoleLog ClientConnected])"
| "step L s (Message ws msg now) = on_message L s ws msg now"
| "step L s (Close ws) = on_close L s"
| "step L s (EventsOpen res) = events_open L s res"
| "step L s (EventsClose res) = (events_close s res, [])"
| "step L s GetRoot = (s, get_root L s)"

fun run :: "(string \<Rightarrow> string) \<Rightarrow> server \<Rightarrow> event list \<Rightarrow> server \<times> effect list" where
  "run L s [] = (s, [])"
| "run L s (ev # evs) =
     (let (s1, out1) = step L s ev;
          (s2, out2) = run L s1 evs
      in (s2, out1 @ out2))"

subsection \<open>Vocabulary for the properties\<close>

text \<open>
  The server as it starts when users.json exists and \<open>JSON.parse\<close> rejects it.
\<close>

definition fresh_server :: server where
  "fresh_server = fst (startup (\<lambda>_. None) (Some ''{''))"

text \<open>
  The source keeps no per-connection state. Whether a connection has identified itself
  is read off the events so far: some HELLO message has arrived on it.
\<close>

fun hello_seen :: "event list \<Rightarrow> conn \<Rightarrow> bool" where
  "hello_seen [] ws = False"
| "hello_seen (Message c msg now # evs) ws =
     ((c = ws \<and> part (split_pipe msg) 0 = Some ''HELLO'') \<or> hello_seen evs ws)"
| "hello_seen (ev # evs) ws = hello_seen evs ws"

text \<open>
  A number printed with exactly two fraction digits: an optional minus sign, at least
  one digit, a point, two digits.
\<close>

definition two_fraction_digits :: "string \<Rightarrow> bool" where
  "two_fraction_digits str =
     (let t = (case str of [] \<Rightarrow> [] | c # r \<Rightarrow> if c = CHR ''-'' then r else str);
          n = length t
      in 4 \<le> n \<and> list_all is_digit (take (n - 3) t) \<and> t ! (n - 3) = CHR ''.''
         \<and> is_digit (t ! (n - 2)) \<and> is_digit (t ! (n - 1)))"

text \<open>Sample records, rows and states for the concrete runs below.\<close>

abbreviation alice_at :: "string \<Rightarrow> user" where
  "alice_at p \<equiv>
     \<lparr>steamId = Some ''A'', username = Some ''Alice'', region = Some ''EU'',
      timezone = Some ''UTC'', firstConnected = Some ''T0'', lastConnected = Some ''T0'',
      lastPosition = Some p\<rparr>"

abbreviation bob :: user where
  "bob \<equiv>
     \<lparr>steamId = Some ''B'', username = Some ''Bob'', region = Some ''EU'',
      timezone = Some ''UTC'', firstConnected = Some ''T2'', lastConnected = Some ''T2'',
      lastPosition = Some ''N/A''\<rparr>"

abbreviation alice_row :: "bool \<Rightarrow> string \<Rightarrow> entry" where
  "alice_row c p \<equiv>
     \<lparr>row_username = ''Alice'', row_steamId = ''A'', row_joined = ''T0'',
      row_connected = c, row_lastPosition = p\<rparr>"

abbreviation bob_row :: "bool \<Rightarrow> entry" where
  "bob_row c \<equiv>
     \<lparr>row_username = ''Bob'', row_steamId = ''B'', row_joined = ''T2'',
      row_connected = c, row_lastPosition = ''N/A''\<rparr>"

abbreviation server_of :: "registry \<Rightarrow> jsval list \<Rightarrow> feed list \<Rightarrow> server" where
  "server_of reg present feeds \<equiv>
     \<lparr>users = reg, connectedUsers = present, sseClients = feeds, object_prototype = []\<rparr>"

text \<open>The player of the scenario \<open>HELLO|76561|Alice|EU|UTC+1\<close>.\<close>

abbreviation player_at :: "string \<Rightarrow> user" where
  "player_at p \<equiv>
     \<lparr>steamId = Some ''76561'', username = Some ''Alice'', region = Some ''EU'',
      timezone = Some ''UTC+1'', firstConnected = Some ''T0'', lastConnected = Some ''T0'',
      lastPosition = Some p\<rparr>"

abbreviation player_row :: "string \<Rightarrow> entry" where
  "player_row p \<equiv>
     \<lparr>row_username = ''Alice'', row_steamId = ''76561'', row_joined = ''T0'',
      row_connected = True, row_lastPosition = p\<rparr>"

section \<open>Properties\<close>

subsection \<open>The Set and the registry object\<close>

lemma fold_set_delete_filter:
  "fold set_delete xs ys = filter (\<lambda>y. y \<notin> set xs) ys"
  by (induction xs arbitrary: ys) (auto simp: set_delete_def intro: filter_cong)

lemma forEach_delete_all: "fold set_delete xs xs = []"
  by (simp add: fold_set_delete_filter)

lemma map_of_insert_index:
  "map_of (insert_index k u reg) k' = (if k' = k then Some u else map_of reg k')"
  by (induction reg) auto

lemma map_of_own_set:
  "map_of (own_set k u reg) k' = (if k' = k then Some u else map_of reg k')"
proof (cases "k \<in> set (map fst reg)")
  case True
  have "map_of (map (\<lambda>(k', u'). if k' = k then (k', u) else (k', u')) reg) k'
        = (if k' = k then (if k \<in> set (map fst reg) then Some u else None) else map_of reg k')"
    by (induction reg) (auto, force)
  with True show ?thesis by (simp add: own_set_def)
next
  case False
  then have "map_of reg k = None"
    by (simp add: map_of_eq_None_iff)
  with False show ?thesis
    by (auto simp: own_set_def map_of_insert_index map_add_def split: option.splits)
qed

lemma own_set_known:
  assumes "map_of reg k = Some u0"
  shows "own_set k u reg = map (\<lambda>(k', u'). if k' = k then (k', u) else (k', u')) reg"
proof -
  from assms have "k \<in> set (map fst reg)"
    by (metis map_of_eq_None_iff option.distinct(1) set_map)
  then show ?thesis by (simp add: own_set_def)
qed

lemma keys_own_set_known:
  assumes "map_of reg k = Some u0"
  shows "map fst (own_set k u reg) = map fst reg"
proof -
  have "map fst (map (\<lambda>(k', u'). if k' = k then (k', u) else (k', u')) reg) = map fst reg"
    by (induction reg) auto
  then show ?thesis by (simp add: own_set_known [OF assms])
qed

lemma own_set_known_nth:
  assumes "map_of reg k = Some u0" and "i < length reg" and "fst (reg ! i) = k"
  shows "i < length (own_set k u reg) \<and> own_set k u reg ! i = (k, u)"
  using assms by (simp add: own_set_known [OF assms(1)] case_prod_beta)

lemma own_set_twice:
  assumes "map_of reg k = Some u0"
  shows "own_set k u2 (own_set k u1 reg) = own_set k u2 reg"
proof -
  have "map_of (own_set k u1 reg) k = Some u1"
    by (simp add: map_of_own_set)
  then have "own_set k u2 (own_set k u1 reg) =
      map (\<lambda>(k', u'). if k' = k then (k', u2) else (k', u')) (own_set k u1 reg)"
    by (rule own_set_known)
  also have "\<dots> = map (\<lambda>(k', u'). if k' = k then (k', u2) else (k', u')) reg"
    by (simp add: own_set_known [OF assms] case_prod_beta)
  also have "\<dots> = own_set k u2 reg"
    by (simp add: own_set_known [OF assms])
  finally show ?thesis .
qed

lemma js_get_record: "map_of (users s) k = Some u \<Longrightarrow> js_get s k = RRecord u"
  by (simp add: js_get_def)

lemma js_get_falsy_no_record: "\<not> truthy (js_get s k) \<Longrightarrow> map_of (users s) k = None"
  by (cases "map_of (users s) k") (auto simp: js_get_def truthy_def)

lemma assign_record:
  "map_of (users s) k = Some u \<Longrightarrow>
   assign k f v s = s\<lparr>users := own_set k (set_field f v u) (users s)\<rparr>"
  by (simp add: assign_def js_get_record)

lemma assign_no_record:
  "map_of (users s) k = None \<Longrightarrow> users (assign k f v s) = users s"
  by (auto simp: assign_def js_get_def split: option.splits)

lemma assign_assign_record:
  assumes "map_of (users s) k = Some u"
  shows "assign k g w (assign k f v s) =
           s\<lparr>users := own_set k (set_field g w (set_field f v u)) (users s)\<rparr>"
proof -
  have 1: "assign k f v s = s\<lparr>users := own_set k (set_field f v u) (users s)\<rparr>"
    using assms by (rule assign_record)
  have "map_of (users (assign k f v s)) k = Some (set_field f v u)"
    by (simp add: 1 map_of_own_set)
  then have "assign k g w (assign k f v s) =
      (assign k f v s)\<lparr>users := own_set k (set_field g w (set_field f v u))
                                  (users (assign k f v s))\<rparr>"
    by (rule assign_record)
  also have "\<dots> = s\<lparr>users := own_set k (set_field g w (set_field f v u)) (users s)\<rparr>"
    by (simp add: 1 own_set_twice [OF assms])
  finally show ?thesis .
qed

lemma assign_sseClients [simp]: "sseClients (assign k f v s) = sseClients s"
  by (auto simp: assign_def split: jsref.splits)

lemma assign_connectedUsers [simp]: "connectedUsers (assign k f v s) = connectedUsers s"
  by (auto simp: assign_def split: jsref.splits)

lemma set_field_firstConnected [simp]: "firstConnected (set_field f v u) = firstConnected u"
  by (cases f) auto

lemma assign_lookup:
  "map_of (users (assign k0 f v s)) k =
     (case map_of (users s) k0 of
        None \<Rightarrow> map_of (users s) k
      | Some u0 \<Rightarrow> if k = k0 then Some (set_field f v u0) else map_of (users s) k)"
  by (cases "map_of (users s) k0") (auto simp: assign_no_record assign_record map_of_own_set)

lemma assign_keeps_firstConnected:
  assumes "\<exists>u. map_of (users s) k = Some u \<and> firstConnected u = c"
  shows "\<exists>u. map_of (users (assign k0 f v s)) k = Some u \<and> firstConnected u = c"
  using assms by (auto simp: assign_lookup split: option.splits)

lemma formatUsers_sseClients [simp]:
  "formatUsers L (s\<lparr>sseClients := cs\<rparr>) = formatUsers L s"
  by (simp add: formatUsers_def)

lemma formatUsers_row:
  assumes "i < length (users s)"
  shows "row_lastPosition (formatUsers L s ! i) = or_default (lastPosition (snd (users s ! i))) ''N/A''"
  using assms by (simp add: formatUsers_def case_prod_beta)

subsection \<open>The three branches of the message callback\<close>

lemma on_message_hello:
  "part (split_pipe msg) 0 = Some ''HELLO'' \<Longrightarrow>
   on_message L s ws msg now =
     hello L s ws (part (split_pipe msg) 1) (part (split_pipe msg) 2)
       (part (split_pipe msg) 3) (part (split_pipe msg) 4) now"
  by (simp add: on_message_def Let_def)

lemma on_message_position:
  "part (split_pipe msg) 0 = Some ''POSITION'' \<Longrightarrow>
   on_message L s ws msg now =
     position L s (part (split_pipe msg) 1) (parseFloat (part (split_pipe msg) 2))
       (parseFloat (part (split_pipe msg) 3)) (parseFloat (part (split_pipe msg) 4))"
  by (simp add: on_message_def Let_def)

lemma on_message_unknown:
  "part (split_pipe msg) 0 \<noteq> Some ''HELLO'' \<Longrightarrow>
   part (split_pipe msg) 0 \<noteq> Some ''POSITION'' \<Longrightarrow>
   on_message L s ws msg now = (s, [ConsoleLog (UnknownCommand msg)])"
  by (simp add: on_message_def Let_def)

text \<open>A HELLO for a key that has a record.\<close>

lemma hello_known:
  assumes "map_of (users s) (property_key sid) = Some u"
  shows "hello L s ws sid name reg tz now =
     (s\<lparr>users := own_set (property_key sid)
                   (u\<lparr>username := name, region := reg, timezone := tz,
                      lastConnected := Some now\<rparr>) (users s),
        connectedUsers := set_add sid (connectedUsers s)\<rparr>,
      [ConsoleLog (ReturningUser name sid),
       WriteUsersFile (own_set (property_key sid)
                   (u\<lparr>username := name, region := reg, timezone := tz,
                      lastConnected := Some now\<rparr>) (users s))]
      @ broadcastUsers L
          (s\<lparr>users := own_set (property_key sid)
                   (u\<lparr>username := name, region := reg, timezone := tz,
                      lastConnected := Some now\<rparr>) (users s),
             connectedUsers := set_add sid (connectedUsers s)\<rparr>)
      @ [WsSend ws (RRecord (u\<lparr>username := name, region := reg, timezone := tz,
                               lastConnected := Some now\<rparr>))])"
proof -
  let ?k = "property_key sid"
  let ?u = "u\<lparr>username := name, region := reg, timezone := tz, lastConnected := Some now\<rparr>"
  let ?s2 = "assign ?k F_region reg (assign ?k F_username name s)"
  have t: "truthy (js_get s ?k)"
    using assms by (simp add: js_get_record truthy_def)
  have s2: "?s2 = s\<lparr>users := own_set ?k (u\<lparr>username := name, region := reg\<rparr>) (users s)\<rparr>"
    using assign_assign_record [OF assms, of F_region reg F_username name] by simp
  have l2: "map_of (users ?s2) ?k = Some (u\<lparr>username := name, region := reg\<rparr>)"
    by (simp add: s2 map_of_own_set)
  have "assign ?k F_lastConnected (Some now) (assign ?k F_timezone tz ?s2) =
      ?s2\<lparr>users := own_set ?k ?u (users ?s2)\<rparr>"
    using assign_assign_record [OF l2, of F_lastConnected "Some now" F_timezone tz] by simp
  also have "\<dots> = s\<lparr>users := own_set ?k ?u (users s)\<rparr>"
    by (simp add: s2 own_set_twice [OF assms])
  finally have s4: "assign ?k F_lastConnected (Some now) (assign ?k F_timezone tz ?s2) =
      s\<lparr>users := own_set ?k ?u (users s)\<rparr>" .
  have g: "js_get (s\<lparr>users := own_set ?k ?u (users s),
                     connectedUsers := set_add sid (connectedUsers s)\<rparr>) ?k = RRecord ?u"
    by (simp add: js_get_def map_of_own_set)
  show ?thesis
    unfolding hello_def Let_def using t
    by (simp add: s4 g saveUsers_def)
qed

text \<open>
  A HELLO for a key under which \<open>users\<close> holds nothing truthy, own or inherited.
\<close>

lemma hello_unknown_key:
  assumes "\<not> truthy (js_get s (property_key sid))"
  shows "hello L s ws sid name reg tz now =
     (s\<lparr>users := own_set (property_key sid)
                   \<lparr>steamId = sid, username = name, region = reg, timezone = tz,
                    firstConnected = Some now, lastConnected = Some now,
                    lastPosition = Some ''N/A''\<rparr> (users s),
        connectedUsers := set_add sid (connectedUsers s)\<rparr>,
      [ConsoleLog (NewUser name sid),
       WriteUsersFile (own_set (property_key sid)
                   \<lparr>steamId = sid, username = name, region = reg, timezone = tz,
                    firstConnected = Some now, lastConnected = Some now,
                    lastPosition = Some ''N/A''\<rparr> (users s))]
      @ broadcastUsers L
          (s\<lparr>users := own_set (property_key sid)
                   \<lparr>steamId = sid, username = name, region = reg, timezone = tz,
                    firstConnected = Some now, lastConnected = Some now,
                    lastPosition = Some ''N/A''\<rparr> (users s),
             connectedUsers := set_add sid (connectedUsers s)\<rparr>)
      @ [WsSend ws (RRecord \<lparr>steamId = sid, username = name, region = reg, timezone = tz,
                    firstConnected = Some now, lastConnected = Some now,
                    lastPosition = Some ''N/A''\<rparr>)])"
  using assms by (simp add: hello_def Let_def saveUsers_def js_get_def map_of_own_set)

text \<open>A POSITION for a key that has a record, and for one with nothing truthy.\<close>

lemma position_known:
  assumes "map_of (users s) (property_key sid) = Some u"
  shows "position L s sid x y z =
     (s\<lparr>users := own_set (property_key sid)
                   (u\<lparr>lastPosition :=
                        Some (toFixed2 x @ '', '' @ toFixed2 y @ '', '' @ toFixed2 z)\<rparr>)
                   (users s)\<rparr>,
      WriteUsersFile
        (own_set (property_key sid)
           (u\<lparr>lastPosition :=
                Some (toFixed2 x @ '', '' @ toFixed2 y @ '', '' @ toFixed2 z)\<rparr>)
           (users s))
      # broadcastUsers L
          (s\<lparr>users := own_set (property_key sid)
                   (u\<lparr>lastPosition :=
                        Some (toFixed2 x @ '', '' @ toFixed2 y @ '', '' @ toFixed2 z)\<rparr>)
                   (users s)\<rparr>))"
  using assms
  by (simp add: position_def Let_def js_get_record truthy_def assign_record saveUsers_def)

lemma position_unknown_key:
  "\<not> truthy (js_get s (property_key sid)) \<Longrightarrow> position L s sid x y z = (s, [])"
  by (simp add: position_def)

text \<open>
  The whole callback on a POSITION message for a key that has a record, whatever the
  three coordinate fields are and whichever connection delivers it.
\<close>

lemma position_known_applied:
  assumes "part (split_pipe msg) 0 = Some ''POSITION''"
      and "map_of (users s) (property_key (part (split_pipe msg) 1)) = Some u"
  shows "on_message L s ws msg now =
     (s\<lparr>users := own_set (property_key (part (split_pipe msg) 1))
                   (u\<lparr>lastPosition :=
                        Some (toFixed2 (parseFloat (part (split_pipe msg) 2)) @ '', ''
                              @ toFixed2 (parseFloat (part (split_pipe msg) 3)) @ '', ''
                              @ toFixed2 (parseFloat (part (split_pipe msg) 4)))\<rparr>)
                   (users s)\<rparr>,
      WriteUsersFile
        (own_set (property_key (part (split_pipe msg) 1))
           (u\<lparr>lastPosition :=
                Some (toFixed2 (parseFloat (part (split_pipe msg) 2)) @ '', ''
                      @ toFixed2 (parseFloat (part (split_pipe msg) 3)) @ '', ''
                      @ toFixed2 (parseFloat (part (split_pipe msg) 4)))\<rparr>)
           (users s))
      # map (\<lambda>res. SseWrite res
                 (formatUsers L
                    (s\<lparr>users := own_set (property_key (part (split_pipe msg) 1))
                       (u\<lparr>lastPosition :=
                            Some (toFixed2 (parseFloat (part (split_pipe msg) 2)) @ '', ''
                                  @ toFixed2 (parseFloat (part (split_pipe msg) 3)) @ '', ''
                                  @ toFixed2 (parseFloat (part (split_pipe msg) 4)))\<rparr>)
                       (users s)\<rparr>)))
          (sseClients s))"
  using position_known [OF assms(2), of L "parseFloat (part (split_pipe msg) 2)"
      "parseFloat (part (split_pipe msg) 3)" "parseFloat (part (split_pipe msg) 4)"] assms(1)
  by (simp add: on_message_position broadcastUsers_def)

subsection \<open>What the callbacks leave alone\<close>

lemma hello_sseClients: "sseClients (fst (hello L s ws sid name reg tz now)) = sseClients s"
  by (simp add: hello_def Let_def)

lemma position_sseClients: "sseClients (fst (position L s sid x y z)) = sseClients s"
  by (simp add: position_def Let_def)

lemma on_message_sseClients: "sseClients (fst (on_message L s ws msg now)) = sseClients s"
  by (simp add: on_message_def Let_def hello_sseClients position_sseClients)

lemma hello_keeps_firstConnected:
  assumes "map_of (users s) k = Some u"
  shows "\<exists>u'. map_of (users (fst (hello L s ws sid name reg tz now))) k = Some u'
              \<and> firstConnected u' = firstConnected u"
proof (cases "truthy (js_get s (property_key sid))")
  case True
  have "\<exists>u'. map_of (users (assign k0 F_lastConnected v4 (assign k0 F_timezone v3
                 (assign k0 F_region v2 (assign k0 F_username v1 s))))) k = Some u'
              \<and> firstConnected u' = firstConnected u" for k0 v1 v2 v3 v4
    using assms by (intro assign_keeps_firstConnected) simp
  with True show ?thesis by (simp add: hello_def Let_def)
next
  case False
  then have "map_of (users s) (property_key sid) = None"
    by (rule js_get_falsy_no_record)
  with assms have "property_key sid \<noteq> k" by auto
  with False assms show ?thesis by (simp add: hello_def Let_def map_of_own_set)
qed

lemma position_keeps_firstConnected:
  assumes "map_of (users s) k = Some u"
  shows "\<exists>u'. map_of (users (fst (position L s sid x y z))) k = Some u'
              \<and> firstConnected u' = firstConnected u"
  using assms by (auto simp: position_def Let_def intro: assign_keeps_firstConnected)

lemma step_keeps_firstConnected:
  assumes "map_of (users s) k = Some u"
  shows "\<exists>u'. map_of (users (fst (step L s ev))) k = Some u'
              \<and> firstConnected u' = firstConnected u"
proof (cases ev)
  case (Message ws msg now)
  then show ?thesis
    using assms hello_keeps_firstConnected position_keeps_firstConnected
    by (simp add: on_message_def Let_def)
qed (use assms in \<open>simp_all add: on_close_def events_open_def events_close_def Let_def\<close>)

text \<open>
  No event of any kind removes a record or changes its \<open>firstConnected\<close>.
\<close>

lemma run_keeps_firstConnected:
  assumes "map_of (users s) k = Some u"
  shows "\<exists>u'. map_of (users (fst (run L s evs))) k = Some u'
              \<and> firstConnected u' = firstConnected u"
  using assms
proof (induction evs arbitrary: s u)
  case Nil
  then show ?case by simp
next
  case (Cons ev evs)
  obtain u1 where u1: "map_of (users (fst (step L s ev))) k = Some u1"
      "firstConnected u1 = firstConnected u"
    using step_keeps_firstConnected [OF Cons.prems] by blast
  from Cons.IH [OF u1(1)] u1(2) show ?case
    by (auto simp: split_beta Let_def)
qed

lemma run_append:
  "run L s (evs @ evs') =
     (fst (run L (fst (run L s evs)) evs'), snd (run L s evs) @ snd (run L (fst (run L s evs)) evs'))"
  by (induction evs arbitrary: s) (auto simp: split_beta Let_def)

subsection \<open>Printing numbers\<close>

lemma digit_chars:
  "list_all (\<lambda>d. is_digit (char_of (48 + d)) \<and> digit_val (char_of (48 + d)) = d)
     [0, 1, 2, 3, 4, 5, 6, 7, 8, 9 :: int]"
  by code_simp

lemma char_of_digit:
  assumes "0 \<le> d" and "d < 10"
  shows "is_digit (char_of (48 + d :: int))" and "digit_val (char_of (48 + d :: int)) = d"
proof -
  from assms have "d = 0 \<or> d = 1 \<or> d = 2 \<or> d = 3 \<or> d = 4 \<or> d = 5 \<or> d = 6 \<or> d = 7
      \<or> d = 8 \<or> d = 9"
    by arith
  then have "d \<in> set [0, 1, 2, 3, 4, 5, 6, 7, 8, 9 :: int]"
    by auto
  with digit_chars show "is_digit (char_of (48 + d))" and "digit_val (char_of (48 + d)) = d"
    unfolding list_all_iff by blast+
qed

lemma decimal_digits: "0 \<le> n \<Longrightarrow> decimal n \<noteq> [] \<and> list_all is_digit (decimal n)"
proof (induction n rule: decimal.induct)
  case (1 n)
  show ?case
  proof (cases "n < 10")
    case True
    with "1.prems" show ?thesis
      by (subst (1 2) decimal.simps) (simp add: char_of_digit)
  next
    case False
    then have "0 \<le> n div 10" by simp
    with "1.IH" False have ih: "list_all is_digit (decimal (n div 10))"
      by simp
    have "is_digit (char_of (48 + n mod 10))"
      by (rule char_of_digit) simp_all
    with ih False show ?thesis
      by (subst (1 2) decimal.simps) simp
  qed
qed

text \<open>The digits printed for an integer read back as that integer.\<close>

lemma digits_val_snoc: "digits_val (ds @ [c]) = 10 * digits_val ds + digit_val c"
  by (simp add: digits_val_def)

lemma digits_val_decimal: "0 \<le> n \<Longrightarrow> digits_val (decimal n) = n"
proof (induction n rule: decimal.induct)
  case (1 n)
  show ?case
  proof (cases "n < 10")
    case True
    with "1.prems" show ?thesis
      by (subst decimal.simps) (simp add: digits_val_def char_of_digit)
  next
    case False
    then have "0 \<le> n div 10" by simp
    with "1.IH" False have ih: "digits_val (decimal (n div 10)) = n div 10"
      by simp
    have "digit_val (char_of (48 + n mod 10)) = n mod 10"
      by (rule char_of_digit) simp_all
    with ih False show ?thesis
      by (subst decimal.simps) (simp add: digits_val_snoc)
  qed
qed

text \<open>
  The integer that \<open>toFixed\<close> prints is within half a hundredth of the number: exact for
  \<open>a * 2 ^ x\<close> with \<open>0 \<le> x\<close>, and for \<open>v = a / 2 ^ k\<close> the integer \<open>n = hundredths a (- k)\<close>
  satisfies \<open>2 * \<bar>n - 100 * v\<bar> \<le> 1\<close>.
\<close>

lemma hundredths_exact: "0 \<le> x \<Longrightarrow> hundredths a x = 100 * (a * 2 ^ nat x)"
  by (simp add: hundredths_def)

lemma hundredths_nearest:
  assumes "x < 0"
  shows "2 * \<bar>hundredths a x * 2 ^ nat (- x) - 100 * a\<bar> \<le> 2 ^ nat (- x)"
proof -
  define d :: int where "d = 2 ^ nat (- x)"
  define n where "n = (a * 200 + d) div (2 * d)"
  define t where "t = n * d"
  define r where "r = (a * 200 + d) mod (2 * d)"
  have d: "0 < d"
    by (simp add: d_def)
  have n: "hundredths a x = n"
    using assms by (simp add: hundredths_def n_def d_def)
  have "a * 200 + d = 2 * d * n + r"
    by (simp add: n_def r_def)
  then have eq: "a * 200 + d = 2 * t + r"
    by (simp add: t_def mult.commute mult.left_commute)
  have r: "0 \<le> r" "r < 2 * d"
    using d by (simp_all add: r_def)
  have lo: "- d \<le> 2 * (t - 100 * a)"
    using eq r by presburger
  have hi: "2 * (t - 100 * a) \<le> d"
    using eq r by presburger
  from lo hi have "2 * \<bar>t - 100 * a\<bar> \<le> d"
    by presburger
  then show ?thesis
    by (simp add: n d_def t_def)
qed

lemma hundredths_nonneg: "0 \<le> a \<Longrightarrow> 0 \<le> hundredths a x"
  by (simp add: hundredths_def pos_imp_zdiv_nonneg_iff)

lemma not_digit_minus: "is_digit c \<Longrightarrow> c \<noteq> CHR ''-''"
  by (auto simp: is_digit_def)

lemma two_fraction_digits_shape:
  assumes "list_all is_digit ip" and "ip \<noteq> []" and "is_digit d1" and "is_digit d2"
  shows "two_fraction_digits (ip @ [CHR ''.'', d1, d2])"
    and "two_fraction_digits (CHR ''-'' # ip @ [CHR ''.'', d1, d2])"
proof -
  let ?t = "ip @ [CHR ''.'', d1, d2]"
  obtain c r where ip: "ip = c # r"
    using assms(2) by (cases ip) auto
  with assms(1) have "c \<noteq> CHR ''-''"
    by (simp add: not_digit_minus)
  with ip have strip:
    "(case ?t of [] \<Rightarrow> [] | c # r \<Rightarrow> if c = CHR ''-'' then r else ?t) = ?t"
    by simp
  have len: "length ?t = length ip + 3"
    by simp
  have idx: "length ip + 3 - 3 = length ip" "length ip + 3 - 2 = length ip + 1"
    "length ip + 3 - 1 = length ip + 2"
    by simp_all
  have nth: "?t ! length ip = CHR ''.''" "?t ! (length ip + 1) = d1" "?t ! (length ip + 2) = d2"
    by (simp_all add: nth_append)
  have tk: "take (length ip) ?t = ip"
    by simp
  have core: "4 \<le> length ?t \<and> list_all is_digit (take (length ?t - 3) ?t)
      \<and> ?t ! (length ?t - 3) = CHR ''.'' \<and> is_digit (?t ! (length ?t - 2))
      \<and> is_digit (?t ! (length ?t - 1))"
    unfolding len idx nth tk using assms ip by simp
  show "two_fraction_digits ?t"
    unfolding two_fraction_digits_def Let_def strip using core by blast
  have minus: "(case CHR ''-'' # ?t of [] \<Rightarrow> []
                 | c # r \<Rightarrow> if c = CHR ''-'' then r else CHR ''-'' # ?t) = ?t"
    by simp
  show "two_fraction_digits (CHR ''-'' # ?t)"
    unfolding two_fraction_digits_def Let_def minus using core by blast
qed

lemma length_two: "length xs = Suc (Suc 0) \<Longrightarrow> \<exists>a b. xs = [a, b]"
  by (cases xs; cases "tl xs") auto

lemma point2_shape:
  assumes "0 \<le> n"
  shows "\<exists>ip d1 d2. point2 n = ip @ [CHR ''.'', d1, d2] \<and> list_all is_digit ip \<and> ip \<noteq> []
           \<and> is_digit d1 \<and> is_digit d2"
proof -
  let ?p = "replicate (3 - length (decimal n)) CHR ''0'' @ decimal n"
  have z: "is_digit CHR ''0''"
    by (simp add: is_digit_def)
  have all: "\<forall>c \<in> set ?p. is_digit c"
    using decimal_digits [OF assms] z by (auto simp: list_all_iff)
  have l3: "3 \<le> length ?p"
    by simp
  then have "length (drop (length ?p - 2) ?p) = Suc (Suc 0)"
    by simp
  from length_two [OF this] obtain d1 d2 where d: "drop (length ?p - 2) ?p = [d1, d2]"
    by blast
  have "set (drop (length ?p - 2) ?p) \<subseteq> set ?p"
    by (rule set_drop_subset)
  with all d have dd: "is_digit d1" "is_digit d2"
    by auto
  have "set (take (length ?p - 2) ?p) \<subseteq> set ?p"
    by (rule set_take_subset)
  with all have ip: "list_all is_digit (take (length ?p - 2) ?p)"
    by (auto simp: list_all_iff)
  from l3 have ne: "take (length ?p - 2) ?p \<noteq> []"
    by auto
  have "point2 n = take (length ?p - 2) ?p @ [CHR ''.'', d1, d2]"
    unfolding point2_def Let_def d by simp
  with ip ne dd show ?thesis by blast
qed

text \<open>Below \<open>10 ^ 21\<close>, \<open>toFixed(2)\<close> prints exactly two fraction digits.\<close>

lemma toFixed2_two_fraction_digits:
  assumes "\<not> ge_1e21 \<bar>m\<bar> x"
  shows "two_fraction_digits (toFixed2 (Finite m x))"
proof -
  have "0 \<le> hundredths \<bar>m\<bar> x"
    by (simp add: hundredths_nonneg)
  then obtain ip d1 d2 where sh: "point2 (hundredths \<bar>m\<bar> x) = ip @ [CHR ''.'', d1, d2]"
      "list_all is_digit ip" "ip \<noteq> []" "is_digit d1" "is_digit d2"
    using point2_shape by blast
  have "toFixed2 (Finite m x) = (if m < 0 then [CHR ''-''] else []) @ point2 (hundredths \<bar>m\<bar> x)"
    using assms by (simp add: toFixed2_def Let_def)
  then show ?thesis
    using two_fraction_digits_shape [OF sh(2-5)] by (simp add: sh(1))
qed

text \<open>
  \<open>parseFloat\<close> yields \<open>NaN\<close> exactly when, after leading white space and one optional
  sign, the text does not begin with a decimal literal.
\<close>

lemma round_ratio_not_NaN: "round_ratio p q \<noteq> NaN"
  by (simp add: round_ratio_def Let_def)

lemma to_double_not_NaN: "to_double M E \<noteq> NaN"
  by (simp add: to_double_def round_ratio_not_NaN)

lemma literal_value_NaN: "literal_value l = NaN \<longleftrightarrow> l = NoLiteral"
  by (cases l) (simp_all add: literal_value_def to_double_not_NaN)

lemma negate_NaN: "negate v = NaN \<longleftrightarrow> v = NaN"
  by (cases v) (simp_all add: negate_def)

lemma parseFloat_NaN_iff:
  "parseFloat v = NaN \<longleftrightarrow>
     (case dropWhile is_white (case v of None \<Rightarrow> ''undefined'' | Some t \<Rightarrow> t) of
        [] \<Rightarrow> True
      | c # r \<Rightarrow> str_unsigned (if c = CHR ''-'' \<or> c = CHR ''+'' then r else c # r) = NoLiteral)"
proof -
  define t where "t = dropWhile is_white (case v of None \<Rightarrow> ''undefined'' | Some t \<Rightarrow> t)"
  have pf: "parseFloat v =
      (case t of
         [] \<Rightarrow> NaN
       | c # r \<Rightarrow>
           if c = CHR ''-'' then negate (literal_value (str_unsigned r))
           else if c = CHR ''+'' then literal_value (str_unsigned r)
           else literal_value (str_unsigned t))"
    unfolding parseFloat_def Let_def t_def ..
  have "parseFloat v = NaN \<longleftrightarrow>
      (case t of
         [] \<Rightarrow> True
       | c # r \<Rightarrow> str_unsigned (if c = CHR ''-'' \<or> c = CHR ''+'' then r else c # r) = NoLiteral)"
    unfolding pf by (cases t) (simp_all add: literal_value_NaN negate_NaN)
  then show ?thesis
    unfolding t_def .
qed

text \<open>What Node prints for some well-known inputs.\<close>

lemma toFixed2_examples:
  "toFixed2 (parseFloat (Some ''1.005'')) = ''1.00''"
  "toFixed2 (parseFloat (Some ''2.675'')) = ''2.67''"
  "toFixed2 (parseFloat (Some ''0.125'')) = ''0.13''"
  "toFixed2 (parseFloat (Some ''-0.001'')) = ''-0.00''"
  "toFixed2 (parseFloat (Some '' 12.5e1xyz'')) = ''125.00''"
  "toFixed2 (parseFloat (Some ''123456789012345680000'')) = ''123456789012345683968.00''"
  "toFixed2 (parseFloat (Some ''-1e23'')) = ''-1e+23''"
  "toFixed2 (parseFloat (Some ''1180591620717411303424'')) = ''1.1805916207174113e+21''"
  "toFixed2 (parseFloat (Some ''.'')) = ''NaN''"
  "toFixed2 (parseFloat None) = ''NaN''"
  by code_simp+

lemma parseFloat_examples:
  "parseFloat (Some ''0.1'') = Finite 7205759403792794 (- 56)"
  "parseFloat (Some ''9007199254740993'') = Finite 4503599627370496 1"
  by code_simp+

subsection \<open>Start-up\<close>

text \<open>
  When users.json exists and cannot be parsed, start-up logs the failure and begins
  with an empty registry, an empty Set and no event stream.
\<close>

lemma startup_unparseable:
  "parse text = None \<Longrightarrow>
   startup parse (Some text) = (server_of [] [] [], [ConsoleLog ParseFailed])"
  by (simp add: startup_def load_def)

lemma fresh_server_eq: "fresh_server = server_of [] [] []"
  by (simp add: fresh_server_def startup_def load_def)

text \<open>
  On that server, every key that is not the name of a member of \<open>Object.prototype\<close>
  gets its record on the first HELLO, with the time of that HELLO as \<open>firstConnected\<close>.
\<close>

lemma fresh_server_hello:
  assumes "property_key sid \<notin> set builtin_names"
  shows "users (fst (hello L fresh_server ws sid name reg tz now)) =
           [(property_key sid,
             \<lparr>steamId = sid, username = name, region = reg, timezone = tz,
              firstConnected = Some now, lastConnected = Some now,
              lastPosition = Some ''N/A''\<rparr>)]"
proof -
  from assms have "property_key sid \<noteq> ''__proto__''"
    by (auto simp: builtin_names_def)
  with assms have "\<not> truthy (js_get fresh_server (property_key sid))"
    by (simp add: js_get_def truthy_def fresh_server_eq)
  then show ?thesis
    by (simp add: hello_unknown_key) (simp add: fresh_server_eq own_set_def)
qed

text \<open>
  C7. users.json holds \<open>{\<close>, which \<open>JSON.parse\<close> rejects: start-up logs the failure and
  the registry is empty. A HELLO for the key \<open>constructor\<close> then finds the function that
  \<open>users\<close> inherits from \<open>Object.prototype\<close>, takes the branch for a returning user and
  creates no record; the reply is built from that function.
\<close>

theorem unparseable_store_then_inherited_key:
  "startup (\<lambda>_. None) (Some ''{'') = (server_of [] [] [], [ConsoleLog ParseFailed])
   \<and> on_message id (fst (startup (\<lambda>_. None) (Some ''{''))) 1
        ''HELLO|constructor|Bob|EU|UTC'' ''T0''
     = (server_of [] [Some ''constructor''] [],
        [ConsoleLog (ReturningUser (Some ''Bob'') (Some ''constructor'')),
         WriteUsersFile [],
         WsSend 1 (RBuiltin ''constructor'')])"
  by code_simp

subsection \<open>HELLO\<close>

text \<open>
  C6. A HELLO for a key that has a record replaces, in that record, \<open>username\<close>,
  \<open>region\<close> and \<open>timezone\<close> by the fields of the message and \<open>lastConnected\<close> by the
  current time; every other field of the record (\<open>steamId\<close>, \<open>firstConnected\<close>,
  \<open>lastPosition\<close>) keeps its value, every other key keeps its record, no key is added,
  removed or moved, and the registry is written to the file right after the log line.
\<close>

theorem hello_known_key_frame:
  assumes "part (split_pipe msg) 0 = Some ''HELLO''"
      and "map_of (users s) (property_key (part (split_pipe msg) 1)) = Some u"
      and "on_message L s ws msg now = (s', out)"
  shows "map_of (users s') (property_key (part (split_pipe msg) 1)) =
           Some (u\<lparr>username := part (split_pipe msg) 2, region := part (split_pipe msg) 3,
                   timezone := part (split_pipe msg) 4, lastConnected := Some now\<rparr>)
       \<and> (\<forall>k. k \<noteq> property_key (part (split_pipe msg) 1) \<longrightarrow>
              map_of (users s') k = map_of (users s) k)
       \<and> map fst (users s') = map fst (users s)
       \<and> take 2 out = [ConsoleLog (ReturningUser (part (split_pipe msg) 2)
                                      (part (split_pipe msg) 1)),
                       WriteUsersFile (users s')]"
proof -
  let ?k = "property_key (part (split_pipe msg) 1)"
  let ?u = "u\<lparr>username := part (split_pipe msg) 2, region := part (split_pipe msg) 3,
              timezone := part (split_pipe msg) 4, lastConnected := Some now\<rparr>"
  from assms(1,3) hello_known [OF assms(2)]
  have s': "s' = s\<lparr>users := own_set ?k ?u (users s),
                    connectedUsers := set_add (part (split_pipe msg) 1) (connectedUsers s)\<rparr>"
    and out: "take 2 out = [ConsoleLog (ReturningUser (part (split_pipe msg) 2)
                                      (part (split_pipe msg) 1)),
                            WriteUsersFile (own_set ?k ?u (users s))]"
    by (auto simp: on_message_hello)
  have u: "users s' = own_set ?k ?u (users s)"
    by (simp add: s')
  have keys: "map fst (own_set ?k ?u (users s)) = map fst (users s)"
    by (rule keys_own_set_known [OF assms(2)])
  show ?thesis
    using out keys by (simp add: u map_of_own_set)
qed

theorem hello_known_key_frame_witness:
  "part (split_pipe ''HELLO|A|Alicia|US|UTC-5'') 0 = Some ''HELLO''
   \<and> map_of (users (server_of [(''A'', alice_at ''1.00, 2.00, 3.00''), (''B'', bob)]
                      [Some ''B''] [7]))
       (property_key (part (split_pipe ''HELLO|A|Alicia|US|UTC-5'') 1))
     = Some (alice_at ''1.00, 2.00, 3.00'')
   \<and> on_message id
        (server_of [(''A'', alice_at ''1.00, 2.00, 3.00''), (''B'', bob)] [Some ''B''] [7])
        1 ''HELLO|A|Alicia|US|UTC-5'' ''T3''
     = (server_of
          [(''A'', (alice_at ''1.00, 2.00, 3.00'')
                     \<lparr>username := Some ''Alicia'', region := Some ''US'',
                      timezone := Some ''UTC-5'', lastConnected := Some ''T3''\<rparr>),
           (''B'', bob)]
          [Some ''B'', Some ''A''] [7],
        [ConsoleLog (ReturningUser (Some ''Alicia'') (Some ''A'')),
         WriteUsersFile
           [(''A'', (alice_at ''1.00, 2.00, 3.00'')
                      \<lparr>username := Some ''Alicia'', region := Some ''US'',
                       timezone := Some ''UTC-5'', lastConnected := Some ''T3''\<rparr>),
            (''B'', bob)],
         SseWrite 7
           [(alice_row True ''1.00, 2.00, 3.00'')\<lparr>row_username := ''Alicia''\<rparr>,
            bob_row True],
         WsSend 1 (RRecord ((alice_at ''1.00, 2.00, 3.00'')
                      \<lparr>username := Some ''Alicia'', region := Some ''US'',
                       timezone := Some ''UTC-5'', lastConnected := Some ''T3''\<rparr>))])
   \<and> map_of
        [(''A'', (alice_at ''1.00, 2.00, 3.00'')
                   \<lparr>username := Some ''Alicia'', region := Some ''US'',
                    timezone := Some ''UTC-5'', lastConnected := Some ''T3''\<rparr>),
         (''B'', bob)] ''B''
     = map_of [(''A'', alice_at ''1.00, 2.00, 3.00''), (''B'', bob)] ''B''"
  (is "?cmd \<and> ?known \<and> ?run \<and> ?other")
proof -
  have c: ?cmd by code_simp
  have k: ?known by code_simp
  have r: ?run by code_simp
  have "''B'' \<noteq> property_key (part (split_pipe ''HELLO|A|Alicia|US|UTC-5'') 1)"
    by code_simp
  with hello_known_key_frame [OF c k r] have ?other
    by simp
  with c k r show ?thesis by blast
qed

text \<open>
  Where the key reaches the branch that creates a record, the record carries the time of
  that HELLO as \<open>firstConnected\<close> from then on, whatever events follow.
\<close>

lemma hello_then_run_firstConnected:
  assumes "\<not> truthy (js_get s (property_key sid))"
  shows "\<exists>u. map_of (users (fst (run L (fst (hello L s ws sid name reg tz now)) evs)))
               (property_key sid) = Some u
             \<and> firstConnected u = Some now"
proof -
  have "map_of (users (fst (hello L s ws sid name reg tz now))) (property_key sid) =
          Some \<lparr>steamId = sid, username = name, region = reg, timezone = tz,
                firstConnected = Some now, lastConnected = Some now,
                lastPosition = Some ''N/A''\<rparr>"
    by (simp add: hello_unknown_key [OF assms] map_of_own_set)
  from run_keeps_firstConnected [OF this, of L evs] show ?thesis
    by simp
qed

text \<open>
  C2. On a server that has just started with an empty registry, two HELLO messages for
  the key \<open>constructor\<close> arrive, at \<open>T0\<close> and at \<open>T1\<close>. \<open>users["constructor"]\<close> is the
  function inherited from \<open>Object.prototype\<close>, so both take the branch for a returning
  user: the registry stays empty, no \<open>firstConnected\<close> is ever recorded for the key, and
  each reply is built from that function.
\<close>

theorem hello_inherited_key_has_no_record:
  "run id fresh_server
     [Message 1 ''HELLO|constructor|Bob|EU|UTC'' ''T0'',
      Message 1 ''HELLO|constructor|Bob|EU|UTC'' ''T1'']
   = (server_of [] [Some ''constructor''] [],
      [ConsoleLog (ReturningUser (Some ''Bob'') (Some ''constructor'')),
       WriteUsersFile [],
       WsSend 1 (RBuiltin ''constructor''),
       ConsoleLog (ReturningUser (Some ''Bob'') (Some ''constructor'')),
       WriteUsersFile [],
       WsSend 1 (RBuiltin ''constructor'')])"
  by code_simp

subsection \<open>POSITION\<close>

text \<open>
  C3. On a server with an empty registry and one event stream, a POSITION message
  arrives for the key \<open>constructor\<close>, which has no record and for which no HELLO was
  ever sent. The test \<open>users[steamId]\<close> finds the function inherited from
  \<open>Object.prototype\<close>, so the position is stored on that function, the registry is
  written to the file and a snapshot is published.
\<close>

theorem position_inherited_key_saves_and_broadcasts:
  "map_of (users (server_of [] [] [7])) ''constructor'' = None
   \<and> on_message id (server_of [] [] [7]) 1 ''POSITION|constructor|1|2|3'' ''T0''
     = (server_of [] [] [7], [WriteUsersFile [], SseWrite 7 []])"
  by code_simp

text \<open>
  C9, as the code has it. The claim fails from \<open>10 ^ 21\<close> on, where \<open>toFixed\<close> switches
  to exponent notation: the decimal coordinate \<open>1000000000000000000000\<close> is stored as
  \<open>1e+21\<close>, which has no fraction digits.
\<close>

theorem position_huge_coordinate:
  "toFixed2 (parseFloat (Some ''1000000000000000000000'')) = ''1e+21''
   \<and> \<not> two_fraction_digits ''1e+21''
   \<and> on_message id (server_of [(''A'', alice_at ''N/A'')] [Some ''A''] [7])
        1 ''POSITION|A|1000000000000000000000|0|0'' ''T1''
     = (server_of [(''A'', alice_at ''1e+21, 0.00, 0.00'')] [Some ''A''] [7],
        [WriteUsersFile [(''A'', alice_at ''1e+21, 0.00, 0.00'')],
         SseWrite 7 [alice_row True ''1e+21, 0.00, 0.00'']])"
  by code_simp

text \<open>
  The bound is on the double that \<open>parseFloat\<close> returns, not on the decimal text: the
  text \<open>999999999999999999999\<close> is below \<open>10 ^ 21\<close>, but the nearest double is
  \<open>10 ^ 21\<close> itself, and it is stored as \<open>1e+21\<close> too.
\<close>

lemma position_rounds_up_to_1e21:
  "parseFloat (Some ''999999999999999999999'') = Finite 7629394531250000 17
   \<and> ge_1e21 (abs 7629394531250000) 17
   \<and> fst (on_message id (server_of [(''A'', alice_at ''N/A'')] [Some ''A''] [7])
             1 ''POSITION|A|999999999999999999999|0|0'' ''T1'')
     = server_of [(''A'', alice_at ''1e+21, 0.00, 0.00'')] [Some ''A''] [7]"
  by code_simp

text \<open>
  C9, amended. A POSITION message for a key with a record, each of whose three
  coordinates \<open>parseFloat\<close> reads as a finite double below \<open>10 ^ 21\<close> in magnitude (the
  double \<open>m * 2 ^ e\<close> that \<open>parseFloat\<close> returns is what is bounded), sets the record's
  \<open>lastPosition\<close> to the three numbers printed by \<open>toFixed(2)\<close> and joined by a comma and
  a space; each of the three has exactly two fraction digits. The other fields of the
  record, the other records, the order of the keys, the Set and the event streams are
  unchanged. The registry is written to the file and each event stream is sent the
  snapshot of the new state, in which the row of that record shows the new position.
\<close>

theorem position_known_key:
  assumes "part (split_pipe msg) 0 = Some ''POSITION''"
      and "map_of (users s) (property_key (part (split_pipe msg) 1)) = Some u"
      and "parseFloat (part (split_pipe msg) 2) = Finite mx ex" and "\<not> ge_1e21 \<bar>mx\<bar> ex"
      and "parseFloat (part (split_pipe msg) 3) = Finite my ey" and "\<not> ge_1e21 \<bar>my\<bar> ey"
      and "parseFloat (part (split_pipe msg) 4) = Finite mz ez" and "\<not> ge_1e21 \<bar>mz\<bar> ez"
      and "on_message L s ws msg now = (s', out)"
  shows "two_fraction_digits (toFixed2 (Finite mx ex))
       \<and> two_fraction_digits (toFixed2 (Finite my ey))
       \<and> two_fraction_digits (toFixed2 (Finite mz ez))
       \<and> map_of (users s') (property_key (part (split_pipe msg) 1)) =
           Some (u\<lparr>lastPosition :=
                    Some (toFixed2 (Finite mx ex) @ '', '' @ toFixed2 (Finite my ey) @ '', ''
                          @ toFixed2 (Finite mz ez))\<rparr>)
       \<and> (\<forall>k. k \<noteq> property_key (part (split_pipe msg) 1) \<longrightarrow>
              map_of (users s') k = map_of (users s) k)
       \<and> map fst (users s') = map fst (users s)
       \<and> connectedUsers s' = connectedUsers s \<and> sseClients s' = sseClients s
       \<and> out = WriteUsersFile (users s')
               # map (\<lambda>res. SseWrite res (formatUsers L s')) (sseClients s)
       \<and> (\<forall>i < length (users s'). fst (users s' ! i) = property_key (part (split_pipe msg) 1) \<longrightarrow>
              row_lastPosition (formatUsers L s' ! i) =
                toFixed2 (Finite mx ex) @ '', '' @ toFixed2 (Finite my ey) @ '', ''
                @ toFixed2 (Finite mz ez))"
proof -
  let ?k = "property_key (part (split_pipe msg) 1)"
  let ?pos = "toFixed2 (Finite mx ex) @ '', '' @ toFixed2 (Finite my ey) @ '', ''
                @ toFixed2 (Finite mz ez)"
  let ?u = "u\<lparr>lastPosition := Some ?pos\<rparr>"
  have "on_message L s ws msg now =
      position L s (part (split_pipe msg) 1) (Finite mx ex) (Finite my ey) (Finite mz ez)"
    using assms(1,3,5,7) by (simp add: on_message_position)
  with assms(9) position_known [OF assms(2), of L "Finite mx ex" "Finite my ey" "Finite mz ez"]
  have s': "s' = s\<lparr>users := own_set ?k ?u (users s)\<rparr>"
    and out: "out = WriteUsersFile (own_set ?k ?u (users s))
                    # broadcastUsers L (s\<lparr>users := own_set ?k ?u (users s)\<rparr>)"
    by simp_all
  have us: "users s' = own_set ?k ?u (users s)"
    by (simp add: s')
  have digits: "two_fraction_digits (toFixed2 (Finite mx ex))"
      "two_fraction_digits (toFixed2 (Finite my ey))"
      "two_fraction_digits (toFixed2 (Finite mz ez))"
    using assms(4,6,8) by (simp_all add: toFixed2_two_fraction_digits)
  have rec: "map_of (users s') ?k = Some ?u"
    by (simp add: us map_of_own_set)
  have others: "\<forall>k. k \<noteq> ?k \<longrightarrow> map_of (users s') k = map_of (users s) k"
    by (simp add: us map_of_own_set)
  have keys: "map fst (users s') = map fst (users s)"
    unfolding us by (rule keys_own_set_known [OF assms(2)])
  have frame: "connectedUsers s' = connectedUsers s" "sseClients s' = sseClients s"
    by (simp_all add: s')
  have out': "out = WriteUsersFile (users s')
               # map (\<lambda>res. SseWrite res (formatUsers L s')) (sseClients s)"
    using out by (simp add: s' broadcastUsers_def)
  have ne: "?pos \<noteq> []"
    by simp
  have rows: "\<forall>i < length (users s'). fst (users s' ! i) = ?k \<longrightarrow>
      row_lastPosition (formatUsers L s' ! i) = ?pos"
  proof (intro allI impI)
    fix i
    assume i: "i < length (users s')" and k: "fst (users s' ! i) = ?k"
    from keys have len: "length (users s') = length (users s)"
      by (metis length_map)
    from keys i k len have "fst (users s ! i) = ?k"
      by (metis nth_map)
    with i len have "users s' ! i = (?k, ?u)"
      unfolding us using own_set_known_nth [OF assms(2)] by simp
    with i ne show "row_lastPosition (formatUsers L s' ! i) = ?pos"
      by (simp add: formatUsers_row or_default_def)
  qed
  from digits rec others keys frame out' rows show ?thesis
    by blast
qed

theorem position_known_key_witness:
  "part (split_pipe ''POSITION|76561|1.2345|-3|0'') 0 = Some ''POSITION''
   \<and> map_of (users (server_of [(''76561'', player_at ''N/A'')] [Some ''76561''] [7]))
       (property_key (part (split_pipe ''POSITION|76561|1.2345|-3|0'') 1))
     = Some (player_at ''N/A'')
   \<and> parseFloat (part (split_pipe ''POSITION|76561|1.2345|-3|0'') 2)
       = Finite 5559693739988877 (- 52)
   \<and> \<not> ge_1e21 (abs 5559693739988877) (- 52)
   \<and> parseFloat (part (split_pipe ''POSITION|76561|1.2345|-3|0'') 3)
       = Finite (- 6755399441055744) (- 51)
   \<and> \<not> ge_1e21 (abs (- 6755399441055744)) (- 51)
   \<and> parseFloat (part (split_pipe ''POSITION|76561|1.2345|-3|0'') 4) = Finite 0 0
   \<and> \<not> ge_1e21 (abs 0) 0
   \<and> on_message id (server_of [(''76561'', player_at ''N/A'')] [Some ''76561''] [7])
        1 ''POSITION|76561|1.2345|-3|0'' ''T1''
     = (server_of [(''76561'', player_at ''1.23, -3.00, 0.00'')] [Some ''76561''] [7],
        [WriteUsersFile [(''76561'', player_at ''1.23, -3.00, 0.00'')],
         SseWrite 7 [player_row ''1.23, -3.00, 0.00'']])
   \<and> two_fraction_digits ''1.23'' \<and> two_fraction_digits ''-3.00''
   \<and> two_fraction_digits ''0.00''"
  (is "?cmd \<and> ?known \<and> ?px \<and> ?bx \<and> ?py \<and> ?by \<and> ?pz \<and> ?bz \<and> ?run \<and> ?dx \<and> ?dy \<and> ?dz")
proof -
  have c: ?cmd by code_simp
  have k: ?known by code_simp
  have px: ?px by code_simp
  have bx: ?bx by code_simp
  have py: ?py by code_simp
  have "by": ?by by code_simp
  have pz: ?pz by code_simp
  have bz: ?bz by code_simp
  have r: ?run by code_simp
  have tx: "toFixed2 (Finite 5559693739988877 (- 52)) = ''1.23''" by code_simp
  have ty: "toFixed2 (Finite (- 6755399441055744) (- 51)) = ''-3.00''" by code_simp
  have tz: "toFixed2 (Finite 0 0) = ''0.00''" by code_simp
  from position_known_key [OF c k px bx py "by" pz bz r]
  have "?dx \<and> ?dy \<and> ?dz"
    unfolding tx ty tz by blast
  with c k px bx py "by" pz bz r show ?thesis by blast
qed

text \<open>
  C5, as the code has it. The claim fails for coordinates that are not numbers: the key
  \<open>A\<close> has a record, \<open>parseFloat\<close> turns \<open>foo\<close>, \<open>bar\<close> and \<open>baz\<close> into \<open>NaN\<close>, and
  the record's \<open>lastPosition\<close> is overwritten, saved and published.
\<close>

theorem position_not_a_number_is_stored:
  "parseFloat (Some ''foo'') = NaN
   \<and> on_message id (server_of [(''A'', alice_at ''1.00, 2.00, 3.00'')] [Some ''A''] [7])
        1 ''POSITION|A|foo|bar|baz'' ''T1''
     = (server_of [(''A'', alice_at ''NaN, NaN, NaN'')] [Some ''A''] [7],
        [WriteUsersFile [(''A'', alice_at ''NaN, NaN, NaN'')],
         SseWrite 7 [alice_row True ''NaN, NaN, NaN'']])"
  by code_simp

text \<open>
  A coordinate that begins with a decimal literal is read as that literal, whatever
  follows it: \<open>12abc\<close>, \<open>1,5\<close> and \<open>1.2.3\<close> are stored as \<open>12.00\<close>, \<open>1.00\<close> and
  \<open>1.20\<close>.
\<close>

lemma position_numeric_prefix:
  "fst (on_message id (server_of [(''A'', alice_at ''N/A'')] [Some ''A''] [7])
          1 ''POSITION|A|12abc|1,5|1.2.3'' ''T1'')
     = server_of [(''A'', alice_at ''12.00, 1.00, 1.20'')] [Some ''A''] [7]"
  by code_simp

text \<open>
  C5, amended. A message with an unknown command is only logged: the state is the same
  afterwards and nothing is written to the file, published or sent. Coordinates are not
  validated: a POSITION message for a key with a record, whatever its three coordinate
  fields are, sets that record's \<open>lastPosition\<close> to \<open>toFixed(2)\<close> of \<open>parseFloat\<close> of
  each field, joined by a comma and a space, writes the registry to the file and sends
  the snapshot of the new state to every event stream. A field that \<open>parseFloat\<close>
  reads as \<open>NaN\<close> is printed as \<open>NaN\<close>.
\<close>

theorem malformed_message:
  "(part (split_pipe msg) 0 \<noteq> Some ''HELLO'' \<and> part (split_pipe msg) 0 \<noteq> Some ''POSITION''
      \<longrightarrow> on_message L s ws msg now = (s, [ConsoleLog (UnknownCommand msg)]))
   \<and> (part (split_pipe msg) 0 = Some ''POSITION''
       \<and> map_of (users s) (property_key (part (split_pipe msg) 1)) = Some u
      \<longrightarrow> on_message L s ws msg now =
            (s\<lparr>users := own_set (property_key (part (split_pipe msg) 1))
                   (u\<lparr>lastPosition :=
                        Some (toFixed2 (parseFloat (part (split_pipe msg) 2)) @ '', ''
                              @ toFixed2 (parseFloat (part (split_pipe msg) 3)) @ '', ''
                              @ toFixed2 (parseFloat (part (split_pipe msg) 4)))\<rparr>)
                   (users s)\<rparr>,
             WriteUsersFile
               (own_set (property_key (part (split_pipe msg) 1))
                  (u\<lparr>lastPosition :=
                       Some (toFixed2 (parseFloat (part (split_pipe msg) 2)) @ '', ''
                             @ toFixed2 (parseFloat (part (split_pipe msg) 3)) @ '', ''
                             @ toFixed2 (parseFloat (part (split_pipe msg) 4)))\<rparr>)
                  (users s))
             # map (\<lambda>res. SseWrite res
                        (formatUsers L
                           (s\<lparr>users := own_set (property_key (part (split_pipe msg) 1))
                              (u\<lparr>lastPosition :=
                                   Some (toFixed2 (parseFloat (part (split_pipe msg) 2)) @ '', ''
                                         @ toFixed2 (parseFloat (part (split_pipe msg) 3)) @ '', ''
                                         @ toFixed2 (parseFloat (part (split_pipe msg) 4)))\<rparr>)
                              (users s)\<rparr>)))
                 (sseClients s)))
   \<and> (\<forall>v. parseFloat v = NaN \<longrightarrow> toFixed2 (parseFloat v) = ''NaN'')"
proof (intro conjI impI allI)
  assume "part (split_pipe msg) 0 \<noteq> Some ''HELLO'' \<and> part (split_pipe msg) 0 \<noteq> Some ''POSITION''"
  then show "on_message L s ws msg now = (s, [ConsoleLog (UnknownCommand msg)])"
    by (simp add: on_message_unknown)
next
  assume a: "part (split_pipe msg) 0 = Some ''POSITION''
       \<and> map_of (users s) (property_key (part (split_pipe msg) 1)) = Some u"
  then have c: "part (split_pipe msg) 0 = Some ''POSITION''"
    and k: "map_of (users s) (property_key (part (split_pipe msg) 1)) = Some u"
    by blast+
  from position_known_applied [OF c k]
  show "on_message L s ws msg now =
            (s\<lparr>users := own_set (property_key (part (split_pipe msg) 1))
                   (u\<lparr>lastPosition :=
                        Some (toFixed2 (parseFloat (part (split_pipe msg) 2)) @ '', ''
                              @ toFixed2 (parseFloat (part (split_pipe msg) 3)) @ '', ''
                              @ toFixed2 (parseFloat (part (split_pipe msg) 4)))\<rparr>)
                   (users s)\<rparr>,
             WriteUsersFile
               (own_set (property_key (part (split_pipe msg) 1))
                  (u\<lparr>lastPosition :=
                       Some (toFixed2 (parseFloat (part (split_pipe msg) 2)) @ '', ''
                             @ toFixed2 (parseFloat (part (split_pipe msg) 3)) @ '', ''
                             @ toFixed2 (parseFloat (part (split_pipe msg) 4)))\<rparr>)
                  (users s))
             # map (\<lambda>res. SseWrite res
                        (formatUsers L
                           (s\<lparr>users := own_set (property_key (part (split_pipe msg) 1))
                              (u\<lparr>lastPosition :=
                                   Some (toFixed2 (parseFloat (part (split_pipe msg) 2)) @ '', ''
                                         @ toFixed2 (parseFloat (part (split_pipe msg) 3)) @ '', ''
                                         @ toFixed2 (parseFloat (part (split_pipe msg) 4)))\<rparr>)
                              (users s)\<rparr>)))
                 (sseClients s))" .
next
  fix v
  assume "parseFloat v = NaN"
  then show "toFixed2 (parseFloat v) = ''NaN''"
    by (simp add: toFixed2_def)
qed

theorem malformed_message_witness:
  "part (split_pipe ''Hello from client!'') 0 \<noteq> Some ''HELLO''
   \<and> part (split_pipe ''Hello from client!'') 0 \<noteq> Some ''POSITION''
   \<and> on_message id fresh_server 1 ''Hello from client!'' ''T0''
     = (fresh_server, [ConsoleLog (UnknownCommand ''Hello from client!'')])
   \<and> part (split_pipe ''POSITION|A|1|foo|3'') 0 = Some ''POSITION''
   \<and> map_of (users (server_of [(''A'', alice_at ''N/A'')] [Some ''A''] [7]))
       (property_key (part (split_pipe ''POSITION|A|1|foo|3'') 1))
     = Some (alice_at ''N/A'')
   \<and> on_message id (server_of [(''A'', alice_at ''N/A'')] [Some ''A''] [7])
        1 ''POSITION|A|1|foo|3'' ''T1''
     = (server_of [(''A'', alice_at ''1.00, NaN, 3.00'')] [Some ''A''] [7],
        [WriteUsersFile [(''A'', alice_at ''1.00, NaN, 3.00'')],
         SseWrite 7 [alice_row True ''1.00, NaN, 3.00'']])
   \<and> parseFloat (part (split_pipe ''POSITION|A|1|foo|3'') 3) = NaN
   \<and> toFixed2 (parseFloat (part (split_pipe ''POSITION|A|1|foo|3'') 3)) = ''NaN''"
  (is "?c1 \<and> ?c2 \<and> ?logged \<and> ?c3 \<and> ?known \<and> ?stored \<and> ?nan \<and> ?shown")
proof -
  let ?s = "server_of [(''A'', alice_at ''N/A'')] [Some ''A''] [7]"
  let ?m = "''POSITION|A|1|foo|3''"
  let ?u = "(alice_at ''N/A'')
              \<lparr>lastPosition :=
                 Some (toFixed2 (parseFloat (part (split_pipe ?m) 2)) @ '', ''
                       @ toFixed2 (parseFloat (part (split_pipe ?m) 3)) @ '', ''
                       @ toFixed2 (parseFloat (part (split_pipe ?m) 4)))\<rparr>"
  have c1: ?c1 by code_simp
  have c2: ?c2 by code_simp
  have c3: ?c3 by code_simp
  have k: ?known by code_simp
  have n: ?nan by code_simp
  from malformed_message [of "''Hello from client!''" id fresh_server 1 "''T0''"] c1 c2
  have l: ?logged by blast
  have o: "own_set (property_key (part (split_pipe ?m) 1)) ?u (users ?s)
           = [(''A'', alice_at ''1.00, NaN, 3.00'')]"
    by code_simp
  have f: "formatUsers id (?s\<lparr>users := [(''A'', alice_at ''1.00, NaN, 3.00'')]\<rparr>)
           = [alice_row True ''1.00, NaN, 3.00'']"
    by code_simp
  from malformed_message [of ?m id ?s 1 "''T1''" "alice_at ''N/A''"] c3 k
  have "on_message id ?s 1 ?m ''T1'' =
          (?s\<lparr>users := own_set (property_key (part (split_pipe ?m) 1)) ?u (users ?s)\<rparr>,
           WriteUsersFile (own_set (property_key (part (split_pipe ?m) 1)) ?u (users ?s))
           # map (\<lambda>res. SseWrite res
                      (formatUsers id
                         (?s\<lparr>users := own_set (property_key (part (split_pipe ?m) 1)) ?u
                                          (users ?s)\<rparr>)))
               (sseClients ?s))"
    by blast
  then have s: ?stored
    unfolding o f by simp
  from malformed_message [of ?m id ?s 1 "''T1''" "alice_at ''N/A''"] n
  have sh: ?shown by blast
  from c1 c2 l c3 k s n sh show ?thesis by blast
qed

subsection \<open>Connections that have not identified themselves\<close>

text \<open>
  C4, as the code has it. The claim fails for POSITION: connection 2 has sent nothing,
  yet its POSITION message for the known key \<open>A\<close> rewrites the record, is saved and is
  published.
\<close>

theorem position_before_hello_is_applied:
  "\<not> hello_seen [Message 1 ''HELLO|A|Alice|EU|UTC'' ''T0'', EventsOpen 7] 2
   \<and> part (split_pipe ''POSITION|A|1|2|3'') 0 \<noteq> Some ''HELLO''
   \<and> run id fresh_server [Message 1 ''HELLO|A|Alice|EU|UTC'' ''T0'', EventsOpen 7]
     = (server_of [(''A'', alice_at ''N/A'')] [Some ''A''] [7],
        [ConsoleLog (NewUser (Some ''Alice'') (Some ''A'')),
         WriteUsersFile [(''A'', alice_at ''N/A'')],
         WsSend 1 (RRecord (alice_at ''N/A'')),
         SseWrite 7 [alice_row True ''N/A'']])
   \<and> step id (server_of [(''A'', alice_at ''N/A'')] [Some ''A''] [7])
        (Message 2 ''POSITION|A|1|2|3'' ''T1'')
     = (server_of [(''A'', alice_at ''1.00, 2.00, 3.00'')] [Some ''A''] [7],
        [WriteUsersFile [(''A'', alice_at ''1.00, 2.00, 3.00'')],
         SseWrite 7 [alice_row True ''1.00, 2.00, 3.00'']])"
  by code_simp

text \<open>
  C4, amended. On a connection on which no HELLO has arrived, a message whose command
  is neither HELLO nor POSITION is only logged: the state is the same afterwards and
  nothing is saved, published or sent. A POSITION message is not turned away there:
  when its key has a record, that record's \<open>lastPosition\<close> is overwritten with the
  printed coordinates, the registry is written to the file and the snapshot of the new
  state is sent to every event stream; and in every case the callback does with it
  exactly what it does on any other connection.
\<close>

theorem message_before_hello:
  assumes "run L s0 evs = (s, out)"
      and "\<not> hello_seen evs ws"
  shows "(part (split_pipe msg) 0 \<noteq> Some ''HELLO'' \<and> part (split_pipe msg) 0 \<noteq> Some ''POSITION''
            \<longrightarrow> step L s (Message ws msg now) = (s, [ConsoleLog (UnknownCommand msg)]))
       \<and> (part (split_pipe msg) 0 = Some ''POSITION''
           \<and> map_of (users s) (property_key (part (split_pipe msg) 1)) = Some u
            \<longrightarrow> step L s (Message ws msg now) =
                 (s\<lparr>users := own_set (property_key (part (split_pipe msg) 1))
                        (u\<lparr>lastPosition :=
                             Some (toFixed2 (parseFloat (part (split_pipe msg) 2)) @ '', ''
                                   @ toFixed2 (parseFloat (part (split_pipe msg) 3)) @ '', ''
                                   @ toFixed2 (parseFloat (part (split_pipe msg) 4)))\<rparr>)
                        (users s)\<rparr>,
                  WriteUsersFile
                    (own_set (property_key (part (split_pipe msg) 1))
                       (u\<lparr>lastPosition :=
                            Some (toFixed2 (parseFloat (part (split_pipe msg) 2)) @ '', ''
                                  @ toFixed2 (parseFloat (part (split_pipe msg) 3)) @ '', ''
                                  @ toFixed2 (parseFloat (part (split_pipe msg) 4)))\<rparr>)
                       (users s))
                  # map (\<lambda>res. SseWrite res
                             (formatUsers L
                                (s\<lparr>users := own_set (property_key (part (split_pipe msg) 1))
                                   (u\<lparr>lastPosition :=
                                        Some (toFixed2 (parseFloat (part (split_pipe msg) 2)) @ '', ''
                                              @ toFixed2 (parseFloat (part (split_pipe msg) 3)) @ '', ''
                                              @ toFixed2 (parseFloat (part (split_pipe msg) 4)))\<rparr>)
                                   (users s)\<rparr>)))
                      (sseClients s)))
       \<and> (part (split_pipe msg) 0 = Some ''POSITION''
            \<longrightarrow> step L s (Message ws msg now) = step L s (Message ws' msg now))"
proof (intro conjI impI)
  assume "part (split_pipe msg) 0 \<noteq> Some ''HELLO'' \<and> part (split_pipe msg) 0 \<noteq> Some ''POSITION''"
  then show "step L s (Message ws msg now) = (s, [ConsoleLog (UnknownCommand msg)])"
    by (simp add: on_message_unknown)
next
  assume a: "part (split_pipe msg) 0 = Some ''POSITION''
           \<and> map_of (users s) (property_key (part (split_pipe msg) 1)) = Some u"
  then have c: "part (split_pipe msg) 0 = Some ''POSITION''"
    and k: "map_of (users s) (property_key (part (split_pipe msg) 1)) = Some u"
    by blast+
  have "step L s (Message ws msg now) = on_message L s ws msg now"
    by simp
  with position_known_applied [OF c k, of L ws now]
  show "step L s (Message ws msg now) =
                 (s\<lparr>users := own_set (property_key (part (split_pipe msg) 1))
                        (u\<lparr>lastPosition :=
                             Some (toFixed2 (parseFloat (part (split_pipe msg) 2)) @ '', ''
                                   @ toFixed2 (parseFloat (part (split_pipe msg) 3)) @ '', ''
                                   @ toFixed2 (parseFloat (part (split_pipe msg) 4)))\<rparr>)
                        (users s)\<rparr>,
                  WriteUsersFile
                    (own_set (property_key (part (split_pipe msg) 1))
                       (u\<lparr>lastPosition :=
                            Some (toFixed2 (parseFloat (part (split_pipe msg) 2)) @ '', ''
                                  @ toFixed2 (parseFloat (part (split_pipe msg) 3)) @ '', ''
                                  @ toFixed2 (parseFloat (part (split_pipe msg) 4)))\<rparr>)
                       (users s))
                  # map (\<lambda>res. SseWrite res
                             (formatUsers L
                                (s\<lparr>users := own_set (property_key (part (split_pipe msg) 1))
                                   (u\<lparr>lastPosition :=
                                        Some (toFixed2 (parseFloat (part (split_pipe msg) 2)) @ '', ''
                                              @ toFixed2 (parseFloat (part (split_pipe msg) 3)) @ '', ''
                                              @ toFixed2 (parseFloat (part (split_pipe msg) 4)))\<rparr>)
                                   (users s)\<rparr>)))
                      (sseClients s))"
    by (rule trans [rotated])
next
  assume "part (split_pipe msg) 0 = Some ''POSITION''"
  then show "step L s (Message ws msg now) = step L s (Message ws' msg now)"
    by (simp add: on_message_position)
qed

theorem message_before_hello_witness:
  "run id fresh_server [Message 1 ''HELLO|A|Alice|EU|UTC'' ''T0'', EventsOpen 7]
     = (server_of [(''A'', alice_at ''N/A'')] [Some ''A''] [7],
        [ConsoleLog (NewUser (Some ''Alice'') (Some ''A'')),
         WriteUsersFile [(''A'', alice_at ''N/A'')],
         WsSend 1 (RRecord (alice_at ''N/A'')),
         SseWrite 7 [alice_row True ''N/A'']])
   \<and> \<not> hello_seen [Message 1 ''HELLO|A|Alice|EU|UTC'' ''T0'', EventsOpen 7] 2
   \<and> part (split_pipe ''Hello from client!'') 0 \<noteq> Some ''HELLO''
   \<and> part (split_pipe ''Hello from client!'') 0 \<noteq> Some ''POSITION''
   \<and> step id (server_of [(''A'', alice_at ''N/A'')] [Some ''A''] [7])
        (Message 2 ''Hello from client!'' ''T1'')
     = (server_of [(''A'', alice_at ''N/A'')] [Some ''A''] [7],
        [ConsoleLog (UnknownCommand ''Hello from client!'')])
   \<and> part (split_pipe ''POSITION|A|1|2|3'') 0 = Some ''POSITION''
   \<and> map_of (users (server_of [(''A'', alice_at ''N/A'')] [Some ''A''] [7]))
       (property_key (part (split_pipe ''POSITION|A|1|2|3'') 1))
     = Some (alice_at ''N/A'')
   \<and> step id (server_of [(''A'', alice_at ''N/A'')] [Some ''A''] [7])
        (Message 2 ''POSITION|A|1|2|3'' ''T1'')
     = (server_of [(''A'', alice_at ''1.00, 2.00, 3.00'')] [Some ''A''] [7],
        [WriteUsersFile [(''A'', alice_at ''1.00, 2.00, 3.00'')],
         SseWrite 7 [alice_row True ''1.00, 2.00, 3.00'']])
   \<and> step id (server_of [(''A'', alice_at ''N/A'')] [Some ''A''] [7])
        (Message 2 ''POSITION|A|1|2|3'' ''T1'')
     = step id (server_of [(''A'', alice_at ''N/A'')] [Some ''A''] [7])
        (Message 1 ''POSITION|A|1|2|3'' ''T1'')"
  (is "?run \<and> ?unseen \<and> ?c1 \<and> ?c2 \<and> ?logged \<and> ?c3 \<and> ?known \<and> ?applied \<and> ?same")
proof -
  let ?s = "server_of [(''A'', alice_at ''N/A'')] [Some ''A''] [7]"
  let ?m = "''POSITION|A|1|2|3''"
  let ?u = "(alice_at ''N/A'')
              \<lparr>lastPosition :=
                 Some (toFixed2 (parseFloat (part (split_pipe ?m) 2)) @ '', ''
                       @ toFixed2 (parseFloat (part (split_pipe ?m) 3)) @ '', ''
                       @ toFixed2 (parseFloat (part (split_pipe ?m) 4)))\<rparr>"
  have r: ?run by code_simp
  have u: ?unseen by code_simp
  have c1: ?c1 by code_simp
  have c2: ?c2 by code_simp
  have c3: ?c3 by code_simp
  have k: ?known by code_simp
  from message_before_hello [OF r u, of "''Hello from client!''" "''T1''"] c1 c2
  have l: ?logged by blast
  have o: "own_set (property_key (part (split_pipe ?m) 1)) ?u (users ?s)
           = [(''A'', alice_at ''1.00, 2.00, 3.00'')]"
    by code_simp
  have f: "formatUsers id (?s\<lparr>users := [(''A'', alice_at ''1.00, 2.00, 3.00'')]\<rparr>)
           = [alice_row True ''1.00, 2.00, 3.00'']"
    by code_simp
  from message_before_hello [OF r u, of ?m "''T1''" "alice_at ''N/A''"] c3 k
  have "step id ?s (Message 2 ?m ''T1'') =
          (?s\<lparr>users := own_set (property_key (part (split_pipe ?m) 1)) ?u (users ?s)\<rparr>,
           WriteUsersFile (own_set (property_key (part (split_pipe ?m) 1)) ?u (users ?s))
           # map (\<lambda>res. SseWrite res
                      (formatUsers id
                         (?s\<lparr>users := own_set (property_key (part (split_pipe ?m) 1)) ?u
                                          (users ?s)\<rparr>)))
               (sseClients ?s))"
    by blast
  then have a: ?applied
    unfolding o f by simp
  from message_before_hello [OF r u, of ?m "''T1''" _ 1] c3
  have s: ?same by blast
  from r u c1 c2 l c3 k a s show ?thesis by blast
qed

subsection \<open>Closing a connection\<close>

text \<open>
  C10. Whichever connection closes, identified or not, the close callback empties
  \<open>connectedUsers\<close>, leaves the registry and the list of event streams as they are, and
  publishes once: after the log line, each event stream is written to exactly once, with
  a snapshot that has one row per record, every one of them with \<open>connected\<close> false.
\<close>

theorem close_clears_presence:
  assumes "step L s (Close ws) = (s', out)"
  shows "connectedUsers s' = []
       \<and> users s' = users s \<and> sseClients s' = sseClients s
       \<and> out = ConsoleLog ClientDisconnected
               # map (\<lambda>res. SseWrite res (formatUsers L s')) (sseClients s)
       \<and> map row_connected (formatUsers L s') = replicate (length (users s)) False"
proof -
  have s': "s' = s\<lparr>connectedUsers := []\<rparr>"
    using assms by (simp add: on_close_def forEach_delete_all Let_def)
  have out: "out = ConsoleLog ClientDisconnected # broadcastUsers L s'"
    using assms by (auto simp: on_close_def forEach_delete_all Let_def)
  have rows: "map row_connected (formatUsers L s') = replicate (length (users s)) False"
    unfolding s'
    by (simp add: formatUsers_def set_has_def comp_def case_prod_beta map_replicate_const)
  show ?thesis
    using s' out rows by (simp add: broadcastUsers_def)
qed

theorem close_clears_presence_witness:
  "step id (server_of [(''A'', alice_at ''N/A'')] [Some ''A''] [7, 8]) (Close 3)
   = (server_of [(''A'', alice_at ''N/A'')] [] [7, 8],
      [ConsoleLog ClientDisconnected,
       SseWrite 7 [alice_row False ''N/A''],
       SseWrite 8 [alice_row False ''N/A'']])
   \<and> map row_connected (formatUsers id (server_of [(''A'', alice_at ''N/A'')] [] [7, 8]))
       = [False]"
  (is "?run \<and> ?rows")
proof -
  have r: ?run
    by code_simp
  from close_clears_presence [OF r] have ?rows
    by simp
  with r show ?thesis ..
qed

text \<open>
  C1. Two sessions identify as \<open>A\<close> and a third as \<open>B\<close>; one of the two sessions of
  \<open>A\<close> closes. The Set holds each identity once, the close callback removes every
  member, and the snapshot it publishes shows \<open>A\<close> and \<open>B\<close> as disconnected although a
  session of each is still open.
\<close>

theorem close_one_of_two_sessions:
  "fst (run id fresh_server
          [Message 1 ''HELLO|A|Alice|EU|UTC'' ''T0'',
           Message 2 ''HELLO|A|Alice|EU|UTC'' ''T0'',
           Message 3 ''HELLO|B|Bob|EU|UTC'' ''T2'',
           EventsOpen 7])
     = server_of [(''A'', alice_at ''N/A''), (''B'', bob)] [Some ''A'', Some ''B''] [7]
   \<and> step id (server_of [(''A'', alice_at ''N/A''), (''B'', bob)] [Some ''A'', Some ''B''] [7])
        (Close 1)
     = (server_of [(''A'', alice_at ''N/A''), (''B'', bob)] [] [7],
        [ConsoleLog ClientDisconnected,
         SseWrite 7 [alice_row False ''N/A'', bob_row False]])"
  by code_simp

subsection \<open>Event streams\<close>

lemma events_open_eq:
  "events_open L s res = (s\<lparr>sseClients := sseClients s @ [res]\<rparr>, [SseWrite res (formatUsers L s)])"
  by (simp add: events_open_def Let_def)

lemma broadcast_targets:
  "SseWrite res snap \<in> set (broadcastUsers L s) \<Longrightarrow> res \<in> set (sseClients s)"
  by (auto simp: broadcastUsers_def)

lemma hello_targets:
  assumes "SseWrite res snap \<in> set (snd (hello L s ws sid name reg tz now))"
  shows "res \<in> set (sseClients s)"
proof -
  let ?s2 = "fst (hello L s ws sid name reg tz now)"
  from assms have "SseWrite res snap \<in> set (broadcastUsers L ?s2)"
    by (auto simp: hello_def Let_def saveUsers_def)
  then have "res \<in> set (sseClients ?s2)"
    by (rule broadcast_targets)
  then show ?thesis
    by (simp add: hello_sseClients)
qed

lemma position_targets:
  assumes "SseWrite res snap \<in> set (snd (position L s sid x y z))"
  shows "res \<in> set (sseClients s)"
proof -
  let ?s1 = "fst (position L s sid x y z)"
  from assms have "SseWrite res snap \<in> set (broadcastUsers L ?s1)"
    by (auto simp: position_def Let_def saveUsers_def split: if_splits)
  then have "res \<in> set (sseClients ?s1)"
    by (rule broadcast_targets)
  then show ?thesis
    by (simp add: position_sseClients)
qed

text \<open>An event writes only to streams already subscribed, or to the one subscribing.\<close>

lemma step_targets:
  assumes "SseWrite res snap \<in> set (snd (step L s ev))"
  shows "res \<in> set (sseClients s) \<or> ev = EventsOpen res"
proof (cases ev)
  case (Message ws msg now)
  with assms show ?thesis
    by (auto simp: on_message_def Let_def split: if_splits
             dest: hello_targets position_targets)
next
  case (Close ws)
  with assms show ?thesis
    by (auto simp: on_close_def Let_def dest: broadcast_targets)
next
  case (EventsOpen r)
  with assms show ?thesis
    by (auto simp: events_open_eq)
qed (use assms in \<open>auto simp: get_root_def\<close>)

lemma step_subscribers:
  assumes "res \<in> set (sseClients (fst (step L s ev)))"
  shows "res \<in> set (sseClients s) \<or> ev = EventsOpen res"
proof (cases ev)
  case (Message ws msg now)
  with assms show ?thesis
    by (simp add: on_message_sseClients)
qed (use assms in \<open>auto simp: on_close_def events_open_eq events_close_def Let_def\<close>)

lemma run_before_subscription:
  assumes "res \<notin> set (sseClients s)" and "EventsOpen res \<notin> set evs"
  shows "res \<notin> set (sseClients (fst (run L s evs)))
       \<and> (\<forall>snap. SseWrite res snap \<notin> set (snd (run L s evs)))"
  using assms
proof (induction evs arbitrary: s)
  case Nil
  then show ?case by simp
next
  case (Cons ev evs)
  from Cons.prems have ne: "ev \<noteq> EventsOpen res" and rest: "EventsOpen res \<notin> set evs"
    by auto
  from Cons.prems(1) ne have 1: "res \<notin> set (sseClients (fst (step L s ev)))"
    using step_subscribers by blast
  from Cons.prems(1) ne have 2: "\<forall>snap. SseWrite res snap \<notin> set (snd (step L s ev))"
    using step_targets by blast
  from Cons.IH [OF 1 rest] 2 show ?case
    by (auto simp: split_beta Let_def)
qed

text \<open>
  C8. An event stream that is not yet in \<open>sseClients\<close> subscribes after the events
  \<open>evs\<close>, and the events \<open>evs'\<close> follow. Nothing is written to the stream before it
  subscribes; the subscription appends it to \<open>sseClients\<close> and writes to it exactly one
  snapshot, computed from the registry and the Set as they are at that moment; whatever
  the later events write comes after that snapshot.
\<close>

theorem subscribe_gets_snapshot_first:
  assumes "res \<notin> set (sseClients s0)"
      and "EventsOpen res \<notin> set evs"
      and "run L s0 evs = (s, out)"
      and "run L (s\<lparr>sseClients := sseClients s @ [res]\<rparr>) evs' = (s', out')"
  shows "step L s (EventsOpen res) =
           (s\<lparr>sseClients := sseClients s @ [res]\<rparr>, [SseWrite res (formatUsers L s)])
       \<and> run L s0 (evs @ EventsOpen res # evs') =
           (s', out @ SseWrite res (formatUsers L s) # out')
       \<and> (\<forall>snap. SseWrite res snap \<notin> set out)"
proof -
  have st: "step L s (EventsOpen res) =
           (s\<lparr>sseClients := sseClients s @ [res]\<rparr>, [SseWrite res (formatUsers L s)])"
    by (simp add: events_open_eq)
  have "run L s (EventsOpen res # evs') = (s', SseWrite res (formatUsers L s) # out')"
    using assms(4) by (simp add: events_open_eq)
  then have all: "run L s0 (evs @ EventsOpen res # evs') =
           (s', out @ SseWrite res (formatUsers L s) # out')"
    using assms(3) by (simp add: run_append)
  have "\<forall>snap. SseWrite res snap \<notin> set (snd (run L s0 evs))"
    using run_before_subscription [OF assms(1,2)] by blast
  then have none: "\<forall>snap. SseWrite res snap \<notin> set out"
    using assms(3) by simp
  from st all none show ?thesis by blast
qed

theorem subscribe_gets_snapshot_first_witness:
  "9 \<notin> set (sseClients (server_of [] [] [7]))
   \<and> EventsOpen 9 \<notin> set [Message 1 ''HELLO|A|Alice|EU|UTC'' ''T0'']
   \<and> run id (server_of [] [] [7]) [Message 1 ''HELLO|A|Alice|EU|UTC'' ''T0'']
     = (server_of [(''A'', alice_at ''N/A'')] [Some ''A''] [7],
        [ConsoleLog (NewUser (Some ''Alice'') (Some ''A'')),
         WriteUsersFile [(''A'', alice_at ''N/A'')],
         SseWrite 7 [alice_row True ''N/A''],
         WsSend 1 (RRecord (alice_at ''N/A''))])
   \<and> run id
        (server_of [(''A'', alice_at ''N/A'')] [Some ''A''] [7]
           \<lparr>sseClients :=
              sseClients (server_of [(''A'', alice_at ''N/A'')] [Some ''A''] [7]) @ [9]\<rparr>)
        [Close 1]
     = (server_of [(''A'', alice_at ''N/A'')] [] [7, 9],
        [ConsoleLog ClientDisconnected,
         SseWrite 7 [alice_row False ''N/A''],
         SseWrite 9 [alice_row False ''N/A'']])
   \<and> run id (server_of [] [] [7])
        ([Message 1 ''HELLO|A|Alice|EU|UTC'' ''T0''] @ EventsOpen 9 # [Close 1])
     = (server_of [(''A'', alice_at ''N/A'')] [] [7, 9],
        [ConsoleLog (NewUser (Some ''Alice'') (Some ''A'')),
         WriteUsersFile [(''A'', alice_at ''N/A'')],
         SseWrite 7 [alice_row True ''N/A''],
         WsSend 1 (RRecord (alice_at ''N/A'')),
         SseWrite 9 [alice_row True ''N/A''],
         ConsoleLog ClientDisconnected,
         SseWrite 7 [alice_row False ''N/A''],
         SseWrite 9 [alice_row False ''N/A'']])"
  (is "?new \<and> ?before \<and> ?run1 \<and> ?run2 \<and> ?trace")
proof -
  have n: ?new by code_simp
  have b: ?before by code_simp
  have r1: ?run1 by code_simp
  have r2: ?run2 by code_simp
  have f: "formatUsers id (server_of [(''A'', alice_at ''N/A'')] [Some ''A''] [7])
      = [alice_row True ''N/A'']"
    by code_simp
  from subscribe_gets_snapshot_first [OF n b r1 r2] have ?trace
    by (simp add: f)
  with n b r1 r2 show ?thesis by blast
qed

end
